theory Spec2Isabelle
  imports Complex_Main "HOL-Library.Word"
begin

unbundle bit_operations_syntax

section \<open>The ARM64EC test DLL of the PE parser tests\<close>

text \<open>
  A shallow embedding of \<^verbatim>\<open>PEParser.Tests.DllARM64EC.cpp\<close> and of the class declared in
  its \<^verbatim>\<open>stdafx.h\<close>. The C++ types are the ones of the ARM64EC target: \<^verbatim>\<open>int\<close> is a
  32-bit word, \<^verbatim>\<open>long long\<close> a 64-bit word, \<^verbatim>\<open>void*\<close> a 64-bit address. Signed
  values are read with \<open>sint\<close>; arithmetic on words wraps around, as the compiled
  code does.
\<close>

subsection \<open>Values\<close>

type_synonym int32 = "32 word"
type_synonym int64 = "64 word"
type_synonym address = "64 word"

text \<open>
  A \<^verbatim>\<open>double\<close> is kept as its 64-bit pattern. Its arithmetic is the floating-point
  unit's; the functions that use it take the unit's operations as a parameter.
\<close>

type_synonym double = "64 word"

subsection \<open>The state a call can touch\<close>

text \<open>
  A call of \<^verbatim>\<open>printf\<close> is recorded as the format string and the arguments passed,
  in the order of the calls. \<open>memory\<close> holds the mapped bytes of the process; an
  address that is not mapped has no entry.
\<close>

datatype printf_arg =
  ArgString string | ArgChar char | ArgInt int32 | ArgDouble double | ArgPointer address

record world =
  memory :: "address \<rightharpoonup> char"
  console :: "(string \<times> printf_arg list) list"

subsection \<open>Exceptions and the outcome of a statement\<close>

text \<open>
  The two C++ exception classes the file throws, and the one structured exception it
  provokes. \<^verbatim>\<open>std::runtime_error\<close> derives from \<^verbatim>\<open>std::exception\<close>; \<open>what\<close> is the
  message given to the constructor.
\<close>

datatype cxx_exception = std_exception string | std_runtime_error string

datatype raised = Language cxx_exception | EXCEPTION_ACCESS_VIOLATION

fun what :: "cxx_exception \<Rightarrow> string" where
  "what (std_exception msg) = msg"
| "what (std_runtime_error msg) = msg"

text \<open>The three forms of catch clause in the file, and the exceptions each one takes.\<close>

datatype catch_clause = catch_std_exception | catch_std_runtime_error | catch_all

fun catches :: "catch_clause \<Rightarrow> cxx_exception \<Rightarrow> bool" where
  "catches catch_std_exception e = True"
| "catches catch_std_runtime_error (std_runtime_error msg) = True"
| "catches catch_std_runtime_error (std_exception msg) = False"
| "catches catch_all e = True"

text \<open>
  A statement either runs to its end (\<open>Normal\<close>), leaves the function with a value
  (\<open>Return\<close>) or raises (\<open>Throw\<close>). \<open>Undefined\<close> is the outcome of a value-returning
  function whose body runs to its end without a \<^verbatim>\<open>return\<close>.
\<close>

datatype 'a outcome = Normal | Return 'a | Throw raised | Undefined

type_synonym ('s, 'a) stmt = "'s \<Rightarrow> 'a outcome \<times> 's"

definition return :: "'a \<Rightarrow> ('s, 'a) stmt" where
  "return v s = (Return v, s)"

definition throw :: "raised \<Rightarrow> ('s, 'a) stmt" where
  "throw e s = (Throw e, s)"

text \<open>A sequence of statements: the first one that does not run to its end decides.\<close>

fun block :: "('s, 'a) stmt list \<Rightarrow> ('s, 'a) stmt" where
  "block [] s = (Normal, s)"
| "block (p # ps) s = (case p s of (Normal, s') \<Rightarrow> block ps s' | (r, s') \<Rightarrow> (r, s'))"

definition if_then :: "('s \<Rightarrow> bool) \<Rightarrow> ('s, 'a) stmt \<Rightarrow> ('s, 'a) stmt" where
  "if_then c p s = (if c s then p s else (Normal, s))"

text \<open>
  \<^verbatim>\<open>try { body } catch (clause) { handler }\<close>. A catch clause takes C++ exceptions
  only; a structured exception passes through it.
\<close>

definition try_catch ::
  "('s, 'a) stmt \<Rightarrow> catch_clause \<Rightarrow> (cxx_exception \<Rightarrow> ('s, 'a) stmt) \<Rightarrow> ('s, 'a) stmt" where
  "try_catch body clause handler s =
     (case body s of
        (Throw (Language e), s') \<Rightarrow>
          if catches clause e then handler e s' else (Throw (Language e), s')
      | (r, s') \<Rightarrow> (r, s'))"

text \<open>
  \<^verbatim>\<open>__try { body } __except (filter) { handler }\<close>. The filter of the file is the
  constant \<^verbatim>\<open>EXCEPTION_EXECUTE_HANDLER\<close>, which hands every exception raised in the
  body to the handler; \<^verbatim>\<open>EXCEPTION_CONTINUE_SEARCH\<close> passes it on to the enclosing
  scope.
\<close>

datatype filter_value = EXCEPTION_EXECUTE_HANDLER | EXCEPTION_CONTINUE_SEARCH

definition try_except ::
  "('s, 'a) stmt \<Rightarrow> filter_value \<Rightarrow> ('s, 'a) stmt \<Rightarrow> ('s, 'a) stmt" where
  "try_except body disposition handler s =
     (case body s of
        (Throw e, s') \<Rightarrow>
          (case disposition of
             EXCEPTION_EXECUTE_HANDLER \<Rightarrow> handler s'
           | EXCEPTION_CONTINUE_SEARCH \<Rightarrow> (Throw e, s'))
      | (r, s') \<Rightarrow> (r, s'))"

text \<open>
  The body of a function, seen from its caller: a value-returning function must leave
  through a \<^verbatim>\<open>return\<close>; a \<^verbatim>\<open>void\<close> function also returns at its end.
\<close>

definition value_function :: "('s, 'a) stmt \<Rightarrow> ('s, 'a) stmt" where
  "value_function body s = (case body s of (Normal, s') \<Rightarrow> (Undefined, s') | (r, s') \<Rightarrow> (r, s'))"

definition void_function :: "('s, unit) stmt \<Rightarrow> ('s, unit) stmt" where
  "void_function body s = (case body s of (Normal, s') \<Rightarrow> (Return (), s') | (r, s') \<Rightarrow> (r, s'))"

subsection \<open>Output and memory\<close>

definition printf :: "string \<Rightarrow> printf_arg list \<Rightarrow> ('x world_scheme, 'a) stmt" where
  "printf fmt args s = (Normal, s\<lparr>console := console s @ [(fmt, args)]\<rparr>)"

text \<open>
  \<^verbatim>\<open>*p = c\<close>. The write traps with an access violation when \<open>p\<close> is the null
  pointer (Windows maps nothing at address 0) or any other unmapped address, and the
  memory is left as it was.
\<close>

definition store_char :: "address \<Rightarrow> char \<Rightarrow> ('x world_scheme, 'a) stmt" where
  "store_char p c s =
     (if p = 0 \<or> memory s p = None then (Throw EXCEPTION_ACCESS_VIOLATION, s)
      else (Normal, s\<lparr>memory := (memory s)(p \<mapsto> c)\<rparr>))"

subsection \<open>The class \<^verbatim>\<open>DllARM64EC_CppxdataUsage\<close>\<close>

text \<open>
  Its one data member is \<^verbatim>\<open>bool m_bShouldThrow = true;\<close>: the default member
  initializer is the value an object has after \<^verbatim>\<open>DllARM64EC_CppxdataUsage testObject;\<close>.
  A member function runs on the world and the object it was called on.
\<close>

record DllARM64EC_CppxdataUsage =
  m_bShouldThrow :: bool

definition DllARM64EC_CppxdataUsage_default :: DllARM64EC_CppxdataUsage where
  "DllARM64EC_CppxdataUsage_default = \<lparr>m_bShouldThrow = True\<rparr>"

record frame = world +
  this :: DllARM64EC_CppxdataUsage

text \<open>\<^verbatim>\<open>bool DllARM64EC_CppxdataUsage::MaybeThrow()\<close>\<close>

definition MaybeThrow_try_block :: "(frame, bool) stmt" where
  "MaybeThrow_try_block =
     if_then (\<lambda>s. m_bShouldThrow (this s))
       (throw (Language (std_exception ''ARM64EC dummy exception'')))"

definition MaybeThrow_handler :: "cxx_exception \<Rightarrow> (frame, bool) stmt" where
  "MaybeThrow_handler except =
     block [printf ''Caught exception: %s\<newline>'' [ArgString (what except)], return False]"

definition MaybeThrow :: "(frame, bool) stmt" where
  "MaybeThrow =
     value_function
       (block [try_catch MaybeThrow_try_block catch_std_exception MaybeThrow_handler,
               return True])"

text \<open>\<^verbatim>\<open>bool DllARM64EC_CppxdataUsage::MaybeThrowWithSEH()\<close>\<close>

definition MaybeThrowWithSEH_guarded :: "(frame, bool) stmt" where
  "MaybeThrowWithSEH_guarded =
     if_then (\<lambda>s. m_bShouldThrow (this s))
       (\<lambda>s. let p = (0 :: address) in store_char p CHR ''X'' s)"

definition MaybeThrowWithSEH_inner_handler :: "(frame, bool) stmt" where
  "MaybeThrowWithSEH_inner_handler =
     block [printf ''ARM64EC SEH inner exception handled\<newline>'' [], return False]"

definition MaybeThrowWithSEH_outer_handler :: "(frame, bool) stmt" where
  "MaybeThrowWithSEH_outer_handler =
     block [printf ''ARM64EC SEH outer exception handled\<newline>'' [], return False]"

definition MaybeThrowWithSEH_inner :: "(frame, bool) stmt" where
  "MaybeThrowWithSEH_inner =
     try_except MaybeThrowWithSEH_guarded EXCEPTION_EXECUTE_HANDLER
       MaybeThrowWithSEH_inner_handler"

definition MaybeThrowWithSEH_outer :: "(frame, bool) stmt" where
  "MaybeThrowWithSEH_outer =
     try_except MaybeThrowWithSEH_inner EXCEPTION_EXECUTE_HANDLER
       MaybeThrowWithSEH_outer_handler"

definition MaybeThrowWithSEH :: "(frame, bool) stmt" where
  "MaybeThrowWithSEH =
     value_function
       (\<lambda>s. let a = [CHR ''0''] in
          block [MaybeThrowWithSEH_outer,
                 printf ''ARM64EC SEH no exception: %c\<newline>'' [ArgChar (a ! 0)],
                 return True] s)"

text \<open>\<^verbatim>\<open>bool DllARM64EC_CppxdataUsage::MaybeThrowNested()\<close>\<close>

definition MaybeThrowNested_inner_try_block :: "(frame, bool) stmt" where
  "MaybeThrowNested_inner_try_block =
     if_then (\<lambda>s. m_bShouldThrow (this s))
       (throw (Language (std_runtime_error ''ARM64EC nested exception'')))"

definition MaybeThrowNested_inner_handler :: "cxx_exception \<Rightarrow> (frame, bool) stmt" where
  "MaybeThrowNested_inner_handler inner =
     block [printf ''ARM64EC inner catch: %s\<newline>'' [ArgString (what inner)],
            throw (Language (std_exception ''ARM64EC re-throw from nested''))]"

definition MaybeThrowNested_outer_try_block :: "(frame, bool) stmt" where
  "MaybeThrowNested_outer_try_block =
     try_catch MaybeThrowNested_inner_try_block catch_std_runtime_error
       MaybeThrowNested_inner_handler"

definition MaybeThrowNested_outer_handler :: "cxx_exception \<Rightarrow> (frame, bool) stmt" where
  "MaybeThrowNested_outer_handler outer =
     block [printf ''ARM64EC outer catch: %s\<newline>'' [ArgString (what outer)], return False]"

definition MaybeThrowNested :: "(frame, bool) stmt" where
  "MaybeThrowNested =
     value_function
       (block [try_catch MaybeThrowNested_outer_try_block catch_std_exception
                 MaybeThrowNested_outer_handler,
               return True])"

subsection \<open>The two exported functions without arguments\<close>

text \<open>
  \<^verbatim>\<open>void ARM64EC_TestFunction1()\<close>. The loop
  \<^verbatim>\<open>for (int i = 0; i < 100; i++) { sum += i; }\<close> is a test on the pair of its two
  variables and one pass through body and increment; the comparison is the signed one.
\<close>

definition TestFunction1_cond :: "int32 \<times> int32 \<Rightarrow> bool" where
  "TestFunction1_cond = (\<lambda>(i, sum). i <s 100)"

definition TestFunction1_iteration :: "int32 \<times> int32 \<Rightarrow> int32 \<times> int32" where
  "TestFunction1_iteration = (\<lambda>(i, sum). (i + 1, sum + i))"

function TestFunction1_loop :: "int32 \<times> int32 \<Rightarrow> int32 \<times> int32" where
  "TestFunction1_loop s =
     (if TestFunction1_cond s then TestFunction1_loop (TestFunction1_iteration s) else s)"
  by pat_completeness auto
termination
proof (relation "measure (\<lambda>(i, sum). nat (100 - sint i))")
  show "wf (measure (\<lambda>(i :: int32, sum :: int32). nat (100 - sint i)))"
    by simp
next
  fix s :: "int32 \<times> int32"
  assume continue: "TestFunction1_cond s"
  obtain i sum where s: "s = (i, sum)"
    by (cases s)
  from continue s have below: "sint i < 100"
    by (simp add: TestFunction1_cond_def word_sless_alt)
  have "- (2 ^ 31) \<le> sint i"
    using sint_ge [of i] by simp
  with below have "signed_take_bit 31 (sint i + 1) = sint i + 1"
    by (intro signed_take_bit_int_eq_self) simp_all
  then have "sint (i + 1) = sint i + 1"
    by (simp add: sint_word_add)
  with below s show "(TestFunction1_iteration s, s) \<in> measure (\<lambda>(i, sum). nat (100 - sint i))"
    by (simp add: TestFunction1_iteration_def)
qed

declare TestFunction1_loop.simps [simp del]

definition ARM64EC_TestFunction1 :: "(world, unit) stmt" where
  "ARM64EC_TestFunction1 =
     void_function
       (block [printf ''ARM64EC Test Function 1 called\<newline>'' [],
               (\<lambda>w. let (i, sum) = TestFunction1_loop (0, 0) in
                  printf ''ARM64EC computation result: %d\<newline>'' [ArgInt sum] w)])"

text \<open>
  \<^verbatim>\<open>void ARM64EC_TestFunction2()\<close>. The loop
  \<^verbatim>\<open>for (int i = 1; i <= 10; i++) { result *= (double)i; }\<close> multiplies doubles:
  the multiplication and the conversion from \<^verbatim>\<open>int\<close> are the floating-point unit's
  and are parameters here, together with the addition that \<^verbatim>\<open>ARM64EC_TestDouble\<close>
  needs. \<open>double_1_0\<close> is the bit pattern of the literal \<^verbatim>\<open>1.0\<close>.
\<close>

record fpu =
  fmul :: "double \<Rightarrow> double \<Rightarrow> double"
  fadd :: "double \<Rightarrow> double \<Rightarrow> double"
  int_to_double :: "int32 \<Rightarrow> double"

definition double_1_0 :: double where
  "double_1_0 = 0x3FF0000000000000"

definition TestFunction2_cond :: "int32 \<times> double \<Rightarrow> bool" where
  "TestFunction2_cond = (\<lambda>(i, result). i \<le>s 10)"

definition TestFunction2_iteration :: "fpu \<Rightarrow> int32 \<times> double \<Rightarrow> int32 \<times> double" where
  "TestFunction2_iteration u = (\<lambda>(i, result). (i + 1, fmul u result (int_to_double u i)))"

function TestFunction2_loop :: "fpu \<Rightarrow> int32 \<times> double \<Rightarrow> int32 \<times> double" where
  "TestFunction2_loop u s =
     (if TestFunction2_cond s then TestFunction2_loop u (TestFunction2_iteration u s) else s)"
  by pat_completeness auto
termination
proof (relation "measure (\<lambda>(u, i, result). nat (11 - sint i))")
  show "wf (measure (\<lambda>(u :: fpu, i :: int32, result :: double). nat (11 - sint i)))"
    by simp
next
  fix u :: fpu and s :: "int32 \<times> double"
  assume continue: "TestFunction2_cond s"
  obtain i result where s: "s = (i, result)"
    by (cases s)
  from continue s have below: "sint i \<le> 10"
    by (simp add: TestFunction2_cond_def word_sle_eq)
  have "- (2 ^ 31) \<le> sint i"
    using sint_ge [of i] by simp
  with below have "signed_take_bit 31 (sint i + 1) = sint i + 1"
    by (intro signed_take_bit_int_eq_self) simp_all
  then have "sint (i + 1) = sint i + 1"
    by (simp add: sint_word_add)
  with below s show "((u, TestFunction2_iteration u s), (u, s)) \<in> measure (\<lambda>(u, i, result). nat (11 - sint i))"
    by (simp add: TestFunction2_iteration_def)
qed

declare TestFunction2_loop.simps [simp del]

definition ARM64EC_TestFunction2 :: "fpu \<Rightarrow> (world, unit) stmt" where
  "ARM64EC_TestFunction2 u =
     void_function
       (block [printf ''ARM64EC Test Function 2 called\<newline>'' [],
               (\<lambda>w. let (i, result) = TestFunction2_loop u (1, double_1_0) in
                  printf ''ARM64EC factorial result: %f\<newline>'' [ArgDouble result] w)])"

subsection \<open>The exported function with exception handling\<close>

text \<open>
  \<^verbatim>\<open>int ARM64EC_TestFunctionWithEH()\<close> has one local, \<^verbatim>\<open>testObject\<close>. A call of a
  member function on it runs the member on the world with \<open>this\<close> bound to the local,
  and writes back what the member left.
\<close>

record locals = world +
  testObject :: DllARM64EC_CppxdataUsage

definition call_on_testObject :: "(frame, 'a) stmt \<Rightarrow> (locals, 'a) stmt" where
  "call_on_testObject member s =
     (case member \<lparr>memory = memory s, console = console s, this = testObject s\<rparr> of
        (r, f) \<Rightarrow> (r, \<lparr>memory = memory f, console = console f, testObject = this f\<rparr>))"

text \<open>
  \<^verbatim>\<open>if (!call) { then_branch }\<close>: an exception of the call leaves the statement, a
  returned \<^verbatim>\<open>false\<close> runs the branch.
\<close>

definition if_not :: "('s, bool) stmt \<Rightarrow> ('s, 'a) stmt \<Rightarrow> ('s, 'a) stmt" where
  "if_not call then_branch s =
     (case call s of
        (Return v, s') \<Rightarrow> if \<not> v then then_branch s' else (Normal, s')
      | (Throw e, s') \<Rightarrow> (Throw e, s')
      | (r, s') \<Rightarrow> (Undefined, s'))"

text \<open>
  The statements of the \<^verbatim>\<open>try\<close> block, with the two calls in the conditions as
  parameters; in the function they are the calls of \<^verbatim>\<open>MaybeThrow\<close> and of
  \<^verbatim>\<open>MaybeThrowNested\<close> on \<^verbatim>\<open>testObject\<close>.
\<close>

definition TestFunctionWithEH_try_block ::
  "(locals, bool) stmt \<Rightarrow> (locals, bool) stmt \<Rightarrow> (locals, int32) stmt" where
  "TestFunctionWithEH_try_block first_call second_call =
     block [
       if_not first_call
         (block [printf ''ARM64EC exception was caught and handled\<newline>'' [], return 1]),
       if_not second_call
         (block [printf ''ARM64EC nested exception was caught and handled\<newline>'' [], return 2]),
       return 0]"

definition TestFunctionWithEH_handler :: "cxx_exception \<Rightarrow> (locals, int32) stmt" where
  "TestFunctionWithEH_handler e =
     block [printf ''ARM64EC unexpected exception in test function\<newline>'' [], return (- 1)]"

text \<open>The \<^verbatim>\<open>try\<close> statement that is the rest of the function, over the same two calls.\<close>

definition TestFunctionWithEH_statements ::
  "(locals, bool) stmt \<Rightarrow> (locals, bool) stmt \<Rightarrow> (locals, int32) stmt" where
  "TestFunctionWithEH_statements first_call second_call =
     value_function
       (try_catch (TestFunctionWithEH_try_block first_call second_call) catch_all
          TestFunctionWithEH_handler)"

text \<open>
  The function body with \<^verbatim>\<open>testObject\<close> initialised to \<open>obj\<close>; the exported function
  is the body on the default-initialised object.
\<close>

definition TestFunctionWithEH_body :: "DllARM64EC_CppxdataUsage \<Rightarrow> (world, int32) stmt" where
  "TestFunctionWithEH_body obj w =
     (case TestFunctionWithEH_statements
             (call_on_testObject MaybeThrow) (call_on_testObject MaybeThrowNested)
             \<lparr>memory = memory w, console = console w, testObject = obj\<rparr> of
        (r, s) \<Rightarrow> (r, \<lparr>memory = memory s, console = console s\<rparr>))"

definition ARM64EC_TestFunctionWithEH :: "(world, int32) stmt" where
  "ARM64EC_TestFunctionWithEH = TestFunctionWithEH_body DllARM64EC_CppxdataUsage_default"

subsection \<open>Double precision\<close>

text \<open>
  The fields of a \<^verbatim>\<open>double\<close> in the IEEE 754 binary64 format: the sign in bit 63, a
  biased exponent of 11 bits, a fraction of 52 bits. An exponent field of 2047 marks
  the infinities (fraction 0) and the NaNs; every other pattern is a finite number,
  \<open>significand * 2 ^ exponent\<close> with the sign, read as a real number by \<open>valof\<close>.
\<close>

definition sign_of :: "double \<Rightarrow> bool" where
  "sign_of d = bit d 63"

definition exponent_field :: "double \<Rightarrow> int" where
  "exponent_field d = uint (take_bit 11 (drop_bit 52 d))"

definition fraction_field :: "double \<Rightarrow> int" where
  "fraction_field d = uint (take_bit 52 d)"

definition is_finite :: "double \<Rightarrow> bool" where
  "is_finite d \<longleftrightarrow> exponent_field d < 2047"

definition is_infinity :: "double \<Rightarrow> bool" where
  "is_infinity d \<longleftrightarrow> exponent_field d = 2047 \<and> fraction_field d = 0"

definition is_nan :: "double \<Rightarrow> bool" where
  "is_nan d \<longleftrightarrow> exponent_field d = 2047 \<and> fraction_field d \<noteq> 0"

definition is_zero :: "double \<Rightarrow> bool" where
  "is_zero d \<longleftrightarrow> exponent_field d = 0 \<and> fraction_field d = 0"

definition significand :: "double \<Rightarrow> int" where
  "significand d =
     (if exponent_field d = 0 then fraction_field d else 2 ^ 52 + fraction_field d)"

definition exponent :: "double \<Rightarrow> int" where
  "exponent d = (if exponent_field d = 0 then - 1074 else exponent_field d - 1075)"

definition scale :: "int \<Rightarrow> real" where
  "scale e = (if 0 \<le> e then 2 ^ nat e else 1 / 2 ^ nat (- e))"

definition valof :: "double \<Rightarrow> real" where
  "valof d = (if sign_of d then - 1 else 1) * real_of_int (significand d) * scale (exponent d)"

definition sign_mask :: double where
  "sign_mask = 0x8000000000000000"

definition positive_infinity :: double where
  "positive_infinity = 0x7FF0000000000000"

definition default_nan :: double where
  "default_nan = 0x7FF8000000000000"

text \<open>
  Rounding to nearest, ties to even, of the exact value \<open>m * 2 ^ e\<close> (\<open>m\<close> not
  negative) to a double with the given sign. The result keeps the 53 leading bits of
  \<open>m\<close>, fewer below the smallest normal exponent: \<open>rounded_exponent\<close> is the exponent
  of the last bit kept, \<open>rounded_significand\<close> the bits kept, rounded by the bits
  dropped. The exponent field and the significand are added, so that a significand
  rounded up to the next power of two carries into the exponent; a result beyond the
  largest finite double is an infinity.
\<close>

function bit_length :: "int \<Rightarrow> nat" where
  "bit_length n = (if n \<le> 0 then 0 else Suc (bit_length (n div 2)))"
  by pat_completeness auto
termination
  by (relation "measure nat") auto

declare bit_length.simps [simp del]

definition rounded_exponent :: "int \<Rightarrow> int \<Rightarrow> int" where
  "rounded_exponent m e = max (e + int (bit_length m) - 53) (- 1074)"

definition rounded_significand :: "int \<Rightarrow> int \<Rightarrow> int" where
  "rounded_significand m e =
     (let e' = rounded_exponent m e;
          dropped = nat (e' - e);
          q = m div 2 ^ dropped;
          r = m mod 2 ^ dropped;
          half = 2 ^ (dropped - 1)
      in if e' \<le> e then m * 2 ^ nat (e - e')
         else if half < r \<or> (r = half \<and> odd q) then q + 1
         else q)"

definition round_binary64 :: "bool \<Rightarrow> int \<Rightarrow> int \<Rightarrow> double" where
  "round_binary64 negative m e =
     (let biased = (rounded_exponent m e + 1074) * 2 ^ 52 + rounded_significand m e
      in (if negative then sign_mask else 0) OR
         (if m = 0 then 0
          else if 2047 * 2 ^ 52 \<le> biased then positive_infinity
          else word_of_int biased))"

text \<open>
  The operations of the ARM64 floating-point unit in its default mode (rounding to
  nearest, no flushing to zero, NaN operands propagated): \<^verbatim>\<open>FMUL\<close>, \<^verbatim>\<open>FADD\<close> and
  \<^verbatim>\<open>SCVTF\<close> from a 32-bit integer. A NaN operand is returned quieted, a signalling
  one first; an invalid operation gives the default NaN.
\<close>

definition propagate_nan :: "double \<Rightarrow> double \<Rightarrow> double" where
  "propagate_nan a b =
     (if is_nan a \<and> \<not> bit a 51 then a OR 0x0008000000000000
      else if is_nan b \<and> \<not> bit b 51 then b OR 0x0008000000000000
      else if is_nan a then a
      else b)"

definition binary64_mul :: "double \<Rightarrow> double \<Rightarrow> double" where
  "binary64_mul a b =
     (if is_nan a \<or> is_nan b then propagate_nan a b
      else if is_infinity a \<or> is_infinity b then
        (if is_zero a \<or> is_zero b then default_nan
         else (if sign_of a \<noteq> sign_of b then sign_mask else 0) OR positive_infinity)
      else round_binary64 (sign_of a \<noteq> sign_of b)
             (significand a * significand b) (exponent a + exponent b))"

definition binary64_add :: "double \<Rightarrow> double \<Rightarrow> double" where
  "binary64_add a b =
     (if is_nan a \<or> is_nan b then propagate_nan a b
      else if is_infinity a \<and> is_infinity b \<and> sign_of a \<noteq> sign_of b then default_nan
      else if is_infinity a then a
      else if is_infinity b then b
      else
        (let e = min (exponent a) (exponent b);
             exact = (if sign_of a then - 1 else 1) * significand a * 2 ^ nat (exponent a - e)
                   + (if sign_of b then - 1 else 1) * significand b * 2 ^ nat (exponent b - e)
         in if exact = 0 then (if sign_of a \<and> sign_of b then sign_mask else 0)
            else round_binary64 (exact < 0) \<bar>exact\<bar> e))"

definition binary64_of_int32 :: "int32 \<Rightarrow> double" where
  "binary64_of_int32 i = round_binary64 (sint i < 0) \<bar>sint i\<bar> 0"

definition binary64_fpu :: fpu where
  "binary64_fpu =
     \<lparr>fmul = binary64_mul, fadd = binary64_add, int_to_double = binary64_of_int32\<rparr>"

text \<open>
  The unit roundoff of the format: rounding to nearest changes a value in the range of
  the normal numbers by at most this fraction of itself.
\<close>

definition unit_roundoff :: real where
  "unit_roundoff = 1 / 2 ^ 53"

subsection \<open>The signature probes without exception handling\<close>

text \<open>\<^verbatim>\<open>void* ARM64EC_TestPointer(void* ptr)\<close>\<close>

definition ARM64EC_TestPointer :: "address \<Rightarrow> (world, address) stmt" where
  "ARM64EC_TestPointer ptr =
     value_function
       (block [if_then (\<lambda>s. ptr \<noteq> 0) (printf ''ARM64EC pointer test: %p\<newline>'' [ArgPointer ptr]),
               return ptr])"

text \<open>
  \<^verbatim>\<open>long long ARM64EC_TestLongLong(long long a, long long b) { return a * b + (a ^ b); }\<close>
\<close>

definition ARM64EC_TestLongLong :: "int64 \<Rightarrow> int64 \<Rightarrow> int64" where
  "ARM64EC_TestLongLong a b = a * b + (a XOR b)"

text \<open>
  \<^verbatim>\<open>double ARM64EC_TestDouble(double x, double y) { return x * x + y * y; }\<close>
\<close>

definition ARM64EC_TestDouble :: "fpu \<Rightarrow> double \<Rightarrow> double \<Rightarrow> double" where
  "ARM64EC_TestDouble u x y = fadd u (fmul u x x) (fmul u y y)"

section \<open>Properties\<close>

subsection \<open>What each function of the exception scenarios does\<close>

lemmas stmt_defs = return_def throw_def if_then_def try_catch_def try_except_def
  value_function_def void_function_def printf_def store_char_def

lemma MaybeThrow_try_block_eq:
  "MaybeThrow_try_block f =
     (if m_bShouldThrow (this f) then Throw (Language (std_exception ''ARM64EC dummy exception''))
      else Normal, f)"
  by (simp add: MaybeThrow_try_block_def stmt_defs)

lemma MaybeThrow_eq:
  "MaybeThrow f =
     (Return (\<not> m_bShouldThrow (this f)),
      if m_bShouldThrow (this f)
      then f\<lparr>console := console f @
             [(''Caught exception: %s\<newline>'', [ArgString ''ARM64EC dummy exception''])]\<rparr>
      else f)"
  by (simp add: MaybeThrow_def MaybeThrow_try_block_eq MaybeThrow_handler_def stmt_defs)

lemma MaybeThrowWithSEH_guarded_eq:
  "MaybeThrowWithSEH_guarded f =
     (if m_bShouldThrow (this f) then Throw EXCEPTION_ACCESS_VIOLATION else Normal, f)"
  by (simp add: MaybeThrowWithSEH_guarded_def stmt_defs)

lemma MaybeThrowWithSEH_inner_eq:
  "MaybeThrowWithSEH_inner f =
     (if m_bShouldThrow (this f)
      then (Return False,
            f\<lparr>console := console f @ [(''ARM64EC SEH inner exception handled\<newline>'', [])]\<rparr>)
      else (Normal, f))"
  by (simp add: MaybeThrowWithSEH_inner_def MaybeThrowWithSEH_guarded_eq
      MaybeThrowWithSEH_inner_handler_def stmt_defs)

lemma try_except_unused:
  "\<forall>e. fst (body s) \<noteq> Throw e \<Longrightarrow> try_except body disposition handler s = body s"
  by (cases "body s") (auto simp: try_except_def split: outcome.splits)

lemma MaybeThrowWithSEH_outer_eq: "MaybeThrowWithSEH_outer f = MaybeThrowWithSEH_inner f"
  unfolding MaybeThrowWithSEH_outer_def
  by (rule try_except_unused) (simp add: MaybeThrowWithSEH_inner_eq)

lemma MaybeThrowWithSEH_eq:
  "MaybeThrowWithSEH f =
     (Return (\<not> m_bShouldThrow (this f)),
      f\<lparr>console := console f @
        [if m_bShouldThrow (this f) then (''ARM64EC SEH inner exception handled\<newline>'', [])
         else (''ARM64EC SEH no exception: %c\<newline>'', [ArgChar CHR ''0''])]\<rparr>)"
  by (simp add: MaybeThrowWithSEH_def MaybeThrowWithSEH_outer_eq MaybeThrowWithSEH_inner_eq stmt_defs)

lemma MaybeThrowNested_inner_try_block_eq:
  "MaybeThrowNested_inner_try_block f =
     (if m_bShouldThrow (this f)
      then Throw (Language (std_runtime_error ''ARM64EC nested exception'')) else Normal, f)"
  by (simp add: MaybeThrowNested_inner_try_block_def stmt_defs)

lemma MaybeThrowNested_outer_try_block_eq:
  "MaybeThrowNested_outer_try_block f =
     (if m_bShouldThrow (this f)
      then (Throw (Language (std_exception ''ARM64EC re-throw from nested'')),
            f\<lparr>console := console f @
              [(''ARM64EC inner catch: %s\<newline>'', [ArgString ''ARM64EC nested exception''])]\<rparr>)
      else (Normal, f))"
  by (simp add: MaybeThrowNested_outer_try_block_def MaybeThrowNested_inner_try_block_eq
      MaybeThrowNested_inner_handler_def stmt_defs)

lemma MaybeThrowNested_eq:
  "MaybeThrowNested f =
     (Return (\<not> m_bShouldThrow (this f)),
      if m_bShouldThrow (this f)
      then f\<lparr>console := console f @
             [(''ARM64EC inner catch: %s\<newline>'', [ArgString ''ARM64EC nested exception'']),
              (''ARM64EC outer catch: %s\<newline>'', [ArgString ''ARM64EC re-throw from nested''])]\<rparr>
      else f)"
  by (simp add: MaybeThrowNested_def MaybeThrowNested_outer_try_block_eq
      MaybeThrowNested_outer_handler_def stmt_defs)

lemma TestFunctionWithEH_body_eq:
  "TestFunctionWithEH_body obj w =
     (if m_bShouldThrow obj
      then (Return 1,
            w\<lparr>console := console w @
              [(''Caught exception: %s\<newline>'', [ArgString ''ARM64EC dummy exception'']),
               (''ARM64EC exception was caught and handled\<newline>'', [])]\<rparr>)
      else (Return 0, w))"
  by (simp add: TestFunctionWithEH_body_def TestFunctionWithEH_statements_def
      TestFunctionWithEH_try_block_def TestFunctionWithEH_handler_def call_on_testObject_def if_not_def
      MaybeThrow_eq MaybeThrowNested_eq stmt_defs)

lemma TestFunctionWithEH_statements_returning:
  "TestFunctionWithEH_statements (\<lambda>s. (Return (r1 s), g1 s)) (\<lambda>s. (Return (r2 s), g2 s)) s =
     (if \<not> r1 s
      then (Return 1,
            (g1 s)\<lparr>console := console (g1 s) @
              [(''ARM64EC exception was caught and handled\<newline>'', [])]\<rparr>)
      else if \<not> r2 (g1 s)
      then (Return 2,
            (g2 (g1 s))\<lparr>console := console (g2 (g1 s)) @
              [(''ARM64EC nested exception was caught and handled\<newline>'', [])]\<rparr>)
      else (Return 0, g2 (g1 s)))"
  by (simp add: TestFunctionWithEH_statements_def TestFunctionWithEH_try_block_def
      TestFunctionWithEH_handler_def if_not_def stmt_defs)

lemma TestFunctionWithEH_statements_first_throws:
  "fst (TestFunctionWithEH_statements (\<lambda>s. (Throw (Language e), g1 s)) second_call s) = Return (- 1)"
  by (simp add: TestFunctionWithEH_statements_def TestFunctionWithEH_try_block_def
      TestFunctionWithEH_handler_def if_not_def stmt_defs)

lemma TestFunctionWithEH_statements_second_throws:
  "fst (TestFunctionWithEH_statements (\<lambda>s. (Return True, g1 s)) (\<lambda>s. (Throw (Language e), g2 s)) s)
     = Return (- 1)"
  by (simp add: TestFunctionWithEH_statements_def TestFunctionWithEH_try_block_def
      TestFunctionWithEH_handler_def if_not_def stmt_defs)

subsection \<open>The loops, iteration by iteration\<close>

lemma sint_of_nat_small: "k \<le> 100 \<Longrightarrow> sint (of_nat k :: int32) = int k"
proof -
  assume "k \<le> 100"
  then have "signed_take_bit 31 (int k) = int k"
    by (intro signed_take_bit_int_eq_self) simp_all
  then show ?thesis by (simp add: signed_of_nat)
qed

lemma TestFunction1_iterations:
  "(TestFunction1_iteration ^^ k) (0, 0) = (of_nat k, of_nat (\<Sum>j<k. j))"
  by (induction k) (simp_all add: TestFunction1_iteration_def)

lemma TestFunction1_cond_iterations:
  "k \<le> 100 \<Longrightarrow> TestFunction1_cond ((TestFunction1_iteration ^^ k) (0, 0)) \<longleftrightarrow> k < 100"
  using sint_of_nat_small [of k] by (simp add: TestFunction1_iterations TestFunction1_cond_def word_sless_alt)

lemma TestFunction1_loop_unroll:
  "list_all (\<lambda>j. TestFunction1_cond ((TestFunction1_iteration ^^ j) s)) [0..<k] \<Longrightarrow>
   TestFunction1_loop s = TestFunction1_loop ((TestFunction1_iteration ^^ k) s)"
proof (induction k)
  case 0
  show ?case by simp
next
  case (Suc k)
  then have "TestFunction1_cond ((TestFunction1_iteration ^^ k) s)" by simp
  then have "TestFunction1_loop ((TestFunction1_iteration ^^ k) s) = TestFunction1_loop ((TestFunction1_iteration ^^ Suc k) s)"
    by (subst TestFunction1_loop.simps) simp
  with Suc show ?case by simp
qed

lemma TestFunction2_iterations:
  "(TestFunction2_iteration u ^^ k) (1, r) =
     (of_nat (Suc k), foldl (\<lambda>acc j. fmul u acc (int_to_double u (of_nat j))) r [1..<Suc k])"
  by (induction k) (simp_all add: TestFunction2_iteration_def)

lemma TestFunction2_cond_iterations:
  "k \<le> 10 \<Longrightarrow> TestFunction2_cond ((TestFunction2_iteration u ^^ k) (1, r)) \<longleftrightarrow> k < 10"
  using sint_of_nat_small [of "Suc k"]
  by (auto simp add: TestFunction2_iterations TestFunction2_cond_def word_sle_eq simp del: of_nat_Suc)

lemma TestFunction2_loop_unroll:
  "list_all (\<lambda>j. TestFunction2_cond ((TestFunction2_iteration u ^^ j) s)) [0..<k] \<Longrightarrow>
   TestFunction2_loop u s = TestFunction2_loop u ((TestFunction2_iteration u ^^ k) s)"
proof (induction k)
  case 0
  show ?case by simp
next
  case (Suc k)
  then have "TestFunction2_cond ((TestFunction2_iteration u ^^ k) s)"
    by simp
  then have "TestFunction2_loop u ((TestFunction2_iteration u ^^ k) s) =
      TestFunction2_loop u ((TestFunction2_iteration u ^^ Suc k) s)"
    by (subst TestFunction2_loop.simps) simp
  with Suc show ?case by simp
qed

lemma TestFunction1_loop_eq:
  "TestFunction1_loop (0, 0) = (TestFunction1_iteration ^^ 100) (0, 0)"
proof -
  have "list_all (\<lambda>k. TestFunction1_cond ((TestFunction1_iteration ^^ k) (0, 0))) [0..<100]"
    by (simp add: list_all_iff TestFunction1_cond_iterations)
  then have "TestFunction1_loop (0, 0) = TestFunction1_loop ((TestFunction1_iteration ^^ 100) (0, 0))"
    by (rule TestFunction1_loop_unroll)
  also have "\<dots> = (TestFunction1_iteration ^^ 100) (0, 0)"
    using TestFunction1_cond_iterations [of 100] by (subst TestFunction1_loop.simps) simp
  finally show ?thesis .
qed

lemma TestFunction1_loop_result: "TestFunction1_loop (0, 0) = (100, 4950)"
proof -
  have "(\<Sum>j<100::nat. j) = 4950"
    by code_simp
  then have "(TestFunction1_iteration ^^ 100) (0, 0) = (of_nat 100, of_nat 4950)"
    by (simp only: TestFunction1_iterations)
  then show ?thesis
    by (simp only: TestFunction1_loop_eq of_nat_numeral)
qed

lemma TestFunction2_loop_eq:
  "TestFunction2_loop u (1, double_1_0) = (TestFunction2_iteration u ^^ 10) (1, double_1_0)"
proof -
  have "list_all (\<lambda>k. TestFunction2_cond ((TestFunction2_iteration u ^^ k) (1, double_1_0))) [0..<10]"
    by (simp add: list_all_iff TestFunction2_cond_iterations)
  then have "TestFunction2_loop u (1, double_1_0) =
      TestFunction2_loop u ((TestFunction2_iteration u ^^ 10) (1, double_1_0))"
    by (rule TestFunction2_loop_unroll)
  also have "\<dots> = (TestFunction2_iteration u ^^ 10) (1, double_1_0)"
    using TestFunction2_cond_iterations [of 10 u double_1_0] by (subst TestFunction2_loop.simps) simp
  finally show ?thesis .
qed

lemma TestFunction2_loop_result:
  "TestFunction2_loop u (1, double_1_0) =
     (11, foldl (\<lambda>acc j. fmul u acc (int_to_double u (of_nat j))) double_1_0 [1..<11])"
proof -
  have "Suc 10 = 11"
    by simp
  then have "(TestFunction2_iteration u ^^ 10) (1, double_1_0) =
      (of_nat 11, foldl (\<lambda>acc j. fmul u acc (int_to_double u (of_nat j))) double_1_0 [1..<11])"
    using TestFunction2_iterations [where u = u and k = 10 and r = double_1_0] by (simp only:)
  then show ?thesis
    by (simp only: TestFunction2_loop_eq of_nat_numeral)
qed

subsection \<open>The integer-pair probe\<close>

text \<open>
  C4: for all 64-bit pairs, negative values and overflowing products included, the
  integer-pair probe returns \<open>a * b + (a XOR b)\<close> in 64-bit two's-complement arithmetic:
  read as signed integers, the result is the mathematical value of the expression on
  the signed readings of the arguments, wrapped to 64 bits, and it always lies in the
  range of a \<^verbatim>\<open>long long\<close>.
\<close>

theorem ARM64EC_TestLongLong_twos_complement:
  "sint (ARM64EC_TestLongLong a b) = signed_take_bit 63 (sint a * sint b + (sint a XOR sint b))
   \<and> - (2 ^ 63) \<le> sint (ARM64EC_TestLongLong a b)
   \<and> sint (ARM64EC_TestLongLong a b) < 2 ^ 63"
proof -
  have in_range: "signed_take_bit 63 (sint w) = sint w" for w :: int64
    using sint_ge [of w] sint_lt [of w] by (simp add: signed_take_bit_int_eq_self)
  have "sint (a * b + (a XOR b)) = signed_take_bit 63 (sint (a * b) + sint (a XOR b))"
    by (simp add: sint_word_add)
  also have "\<dots> = signed_take_bit 63
      (signed_take_bit 63 (sint a * sint b) + signed_take_bit 63 (sint (a XOR b)))"
    by (simp only: sint_word_mult in_range) simp
  also have "\<dots> = signed_take_bit 63 (sint a * sint b + sint (a XOR b))"
    by (simp only: signed_take_bit_add)
  finally have value_eq:
    "sint (a * b + (a XOR b)) = signed_take_bit 63 (sint a * sint b + (sint a XOR sint b))"
    by (simp only: signed_xor_eq)
  have lower: "- (2 ^ 63) \<le> sint (a * b + (a XOR b))"
    using sint_ge [of "a * b + (a XOR b)"] by simp
  have upper: "sint (a * b + (a XOR b)) < 2 ^ 63"
    using sint_lt [of "a * b + (a XOR b)"] by simp
  from value_eq lower upper show ?thesis
    unfolding ARM64EC_TestLongLong_def by simp
qed

subsection \<open>The two probes without arguments\<close>

text \<open>
  C9: each of the two no-argument probes performs a bounded computation without side
  effects and returns on every call. The loop of \<^verbatim>\<open>ARM64EC_TestFunction1\<close> passes its
  test at each of the first 100 iterations and fails it after the 100th, so it runs
  exactly 100 times, and leaves the sum of the integers 0 to 99 (4950). The loop of
  \<^verbatim>\<open>ARM64EC_TestFunction2\<close> runs exactly 10 times and leaves the running product of
  the integers 1 to 10, starting from \<^verbatim>\<open>1.0\<close>, whatever the floating-point unit
  computes for a product. Both functions return, leave the memory as it was and add
  two lines of diagnostic output.
\<close>

theorem no_argument_probes_bounded:
  "TestFunction1_loop (0, 0) = (TestFunction1_iteration ^^ 100) (0, 0)
   \<and> list_all (\<lambda>k. TestFunction1_cond ((TestFunction1_iteration ^^ k) (0, 0))) [0..<100]
   \<and> \<not> TestFunction1_cond ((TestFunction1_iteration ^^ 100) (0, 0))
   \<and> snd (TestFunction1_loop (0, 0)) = of_nat (\<Sum>j = 0..99. j)
   \<and> ARM64EC_TestFunction1 w =
       (Return (),
        w\<lparr>console := console w @
          [(''ARM64EC Test Function 1 called\<newline>'', []),
           (''ARM64EC computation result: %d\<newline>'', [ArgInt 4950])]\<rparr>)
   \<and> TestFunction2_loop u (1, double_1_0) = (TestFunction2_iteration u ^^ 10) (1, double_1_0)
   \<and> list_all (\<lambda>k. TestFunction2_cond ((TestFunction2_iteration u ^^ k) (1, double_1_0))) [0..<10]
   \<and> \<not> TestFunction2_cond ((TestFunction2_iteration u ^^ 10) (1, double_1_0))
   \<and> snd (TestFunction2_loop u (1, double_1_0)) =
       foldl (\<lambda>acc j. fmul u acc (int_to_double u (of_nat j))) double_1_0 [1..<11]
   \<and> ARM64EC_TestFunction2 u w =
       (Return (),
        w\<lparr>console := console w @
          [(''ARM64EC Test Function 2 called\<newline>'', []),
           (''ARM64EC factorial result: %f\<newline>'',
            [ArgDouble (foldl (\<lambda>acc j. fmul u acc (int_to_double u (of_nat j))) double_1_0 [1..<11])])]\<rparr>)"
proof -
  have sum_eq: "(\<Sum>j = 0..99::nat. j) = 4950"
    by code_simp
  have a: "list_all (\<lambda>k. TestFunction1_cond ((TestFunction1_iteration ^^ k) (0, 0))) [0..<100]"
    by (simp add: list_all_iff TestFunction1_cond_iterations)
  have b: "\<not> TestFunction1_cond ((TestFunction1_iteration ^^ 100) (0, 0))"
    using TestFunction1_cond_iterations [of 100] by simp
  have c: "snd (TestFunction1_loop (0, 0)) = of_nat (\<Sum>j = 0..99. j)"
    by (simp only: sum_eq TestFunction1_loop_result) simp
  have d: "ARM64EC_TestFunction1 w =
       (Return (),
        w\<lparr>console := console w @
          [(''ARM64EC Test Function 1 called\<newline>'', []),
           (''ARM64EC computation result: %d\<newline>'', [ArgInt 4950])]\<rparr>)"
    by (simp add: ARM64EC_TestFunction1_def TestFunction1_loop_result void_function_def printf_def)
  have e: "list_all (\<lambda>k. TestFunction2_cond ((TestFunction2_iteration u ^^ k) (1, double_1_0))) [0..<10]"
    by (simp add: list_all_iff TestFunction2_cond_iterations)
  have f: "\<not> TestFunction2_cond ((TestFunction2_iteration u ^^ 10) (1, double_1_0))"
    using TestFunction2_cond_iterations [of 10 u double_1_0] by simp
  have g: "snd (TestFunction2_loop u (1, double_1_0)) =
       foldl (\<lambda>acc j. fmul u acc (int_to_double u (of_nat j))) double_1_0 [1..<11]"
    by (simp only: TestFunction2_loop_result snd_conv)
  have h: "ARM64EC_TestFunction2 u w =
       (Return (),
        w\<lparr>console := console w @
          [(''ARM64EC Test Function 2 called\<newline>'', []),
           (''ARM64EC factorial result: %f\<newline>'',
            [ArgDouble (foldl (\<lambda>acc j. fmul u acc (int_to_double u (of_nat j))) double_1_0 [1..<11])])]\<rparr>)"
    by (simp add: ARM64EC_TestFunction2_def TestFunction2_loop_result void_function_def printf_def)
  from TestFunction1_loop_eq a b c d TestFunction2_loop_eq [of u] e f g h show ?thesis
    by (intro conjI)
qed

subsection \<open>The exception scenario object\<close>

text \<open>
  C2: every operation of the exception scenario object returns true when the trigger
  flag is clear, and then nothing is raised inside it; when the flag is set it returns
  false, and the exception or fault raised inside it does not reach the caller.
\<close>

theorem scenario_operations_contain_their_exceptions:
  "(\<not> m_bShouldThrow (this f) \<longrightarrow>
      fst (MaybeThrow f) = Return True \<and> fst (MaybeThrow_try_block f) = Normal
    \<and> fst (MaybeThrowWithSEH f) = Return True \<and> fst (MaybeThrowWithSEH_guarded f) = Normal
    \<and> fst (MaybeThrowNested f) = Return True \<and> fst (MaybeThrowNested_inner_try_block f) = Normal)
   \<and> (m_bShouldThrow (this f) \<longrightarrow>
      fst (MaybeThrow f) = Return False
    \<and> fst (MaybeThrow_try_block f) = Throw (Language (std_exception ''ARM64EC dummy exception''))
    \<and> fst (MaybeThrowWithSEH f) = Return False
    \<and> fst (MaybeThrowWithSEH_guarded f) = Throw EXCEPTION_ACCESS_VIOLATION
    \<and> fst (MaybeThrowNested f) = Return False
    \<and> fst (MaybeThrowNested_inner_try_block f) =
          Throw (Language (std_runtime_error ''ARM64EC nested exception''))
    \<and> fst (MaybeThrowNested_outer_try_block f) =
          Throw (Language (std_exception ''ARM64EC re-throw from nested'')))
   \<and> (\<forall>e. fst (MaybeThrow f) \<noteq> Throw e \<and> fst (MaybeThrowWithSEH f) \<noteq> Throw e
          \<and> fst (MaybeThrowNested f) \<noteq> Throw e)"
  by (simp add: MaybeThrow_eq MaybeThrow_try_block_eq MaybeThrowWithSEH_eq
      MaybeThrowWithSEH_guarded_eq MaybeThrowNested_eq MaybeThrowNested_inner_try_block_eq
      MaybeThrowNested_outer_try_block_eq)

theorem scenario_operations_contain_their_exceptions_witness:
  "fst (MaybeThrow \<lparr>memory = Map.empty, console = [], this = \<lparr>m_bShouldThrow = False\<rparr>\<rparr>) = Return True
   \<and> fst (MaybeThrowWithSEH \<lparr>memory = Map.empty, console = [], this = \<lparr>m_bShouldThrow = False\<rparr>\<rparr>)
        = Return True
   \<and> fst (MaybeThrowNested \<lparr>memory = Map.empty, console = [], this = \<lparr>m_bShouldThrow = False\<rparr>\<rparr>)
        = Return True
   \<and> fst (MaybeThrow \<lparr>memory = Map.empty, console = [], this = \<lparr>m_bShouldThrow = True\<rparr>\<rparr>) = Return False
   \<and> fst (MaybeThrowWithSEH \<lparr>memory = Map.empty, console = [], this = \<lparr>m_bShouldThrow = True\<rparr>\<rparr>)
        = Return False
   \<and> fst (MaybeThrowWithSEH_guarded \<lparr>memory = Map.empty, console = [], this = \<lparr>m_bShouldThrow = True\<rparr>\<rparr>)
        = Throw EXCEPTION_ACCESS_VIOLATION
   \<and> fst (MaybeThrowNested \<lparr>memory = Map.empty, console = [], this = \<lparr>m_bShouldThrow = True\<rparr>\<rparr>)
        = Return False"
  using scenario_operations_contain_their_exceptions
          [of "\<lparr>memory = Map.empty, console = [], this = \<lparr>m_bShouldThrow = False\<rparr>\<rparr>"]
        scenario_operations_contain_their_exceptions
          [of "\<lparr>memory = Map.empty, console = [], this = \<lparr>m_bShouldThrow = True\<rparr>\<rparr>"]
  by simp

text \<open>
  C6: in the structured-fault probe the outer handler is never invoked. The statement
  guarded by the outer \<^verbatim>\<open>__try\<close> never raises: with the flag clear nothing faults,
  with the flag set the access violation of the null write is taken by the inner
  handler, which reports it and returns false. So the outer \<^verbatim>\<open>__except\<close> is the
  guarded statement itself, whatever its handler is, and the probe emits one line,
  which is the inner handler's or the report of the byte read from the local array.
\<close>

theorem MaybeThrowWithSEH_outer_handler_never_invoked:
  "(\<forall>e. fst (MaybeThrowWithSEH_inner f) \<noteq> Throw e)
   \<and> try_except MaybeThrowWithSEH_inner EXCEPTION_EXECUTE_HANDLER handler f = MaybeThrowWithSEH_inner f
   \<and> MaybeThrowWithSEH_guarded f =
       (if m_bShouldThrow (this f) then Throw EXCEPTION_ACCESS_VIOLATION else Normal, f)
   \<and> MaybeThrowWithSEH_inner f =
       (if m_bShouldThrow (this f) then MaybeThrowWithSEH_inner_handler f else (Normal, f))
   \<and> MaybeThrowWithSEH f =
       (Return (\<not> m_bShouldThrow (this f)),
        f\<lparr>console := console f @
          [if m_bShouldThrow (this f) then (''ARM64EC SEH inner exception handled\<newline>'', [])
           else (''ARM64EC SEH no exception: %c\<newline>'', [ArgChar CHR ''0''])]\<rparr>)
   \<and> (''ARM64EC SEH outer exception handled\<newline>'', [])
        \<notin> set (drop (length (console f)) (console (snd (MaybeThrowWithSEH f))))"
proof -
  have never_raises: "\<forall>e. fst (MaybeThrowWithSEH_inner f) \<noteq> Throw e"
    by (simp add: MaybeThrowWithSEH_inner_eq)
  then have unused:
    "try_except MaybeThrowWithSEH_inner EXCEPTION_EXECUTE_HANDLER handler f = MaybeThrowWithSEH_inner f"
    by (rule try_except_unused)
  have inner: "MaybeThrowWithSEH_inner f =
       (if m_bShouldThrow (this f) then MaybeThrowWithSEH_inner_handler f else (Normal, f))"
    by (simp add: MaybeThrowWithSEH_inner_eq MaybeThrowWithSEH_inner_handler_def stmt_defs)
  have emitted: "(''ARM64EC SEH outer exception handled\<newline>'', [])
        \<notin> set (drop (length (console f)) (console (snd (MaybeThrowWithSEH f))))"
    by (simp add: MaybeThrowWithSEH_eq)
  from never_raises unused inner emitted show ?thesis
    by (simp add: MaybeThrowWithSEH_guarded_eq MaybeThrowWithSEH_eq)
qed

text \<open>
  C7: no operation of the exception scenario object changes the object, so the flag
  keeps the value it was constructed with; no operation changes the memory; the output
  is only extended; and the value an operation returns is the same in any two states
  whose objects have the same flag.
\<close>

theorem scenario_object_flag_fixed_and_outcome_pure:
  assumes "operation \<in> {MaybeThrow, MaybeThrowWithSEH, MaybeThrowNested}"
  shows "this (snd (operation f)) = this f
    \<and> memory (snd (operation f)) = memory f
    \<and> take (length (console f)) (console (snd (operation f))) = console f
    \<and> fst (operation f) = Return (\<not> m_bShouldThrow (this f))
    \<and> (m_bShouldThrow (this g) = m_bShouldThrow (this f) \<longrightarrow> fst (operation g) = fst (operation f))"
proof -
  from assms consider "operation = MaybeThrow" | "operation = MaybeThrowWithSEH"
    | "operation = MaybeThrowNested"
    by auto
  then show ?thesis
  proof cases
    case 1
    then show ?thesis by (simp add: MaybeThrow_eq)
  next
    case 2
    then show ?thesis by (simp add: MaybeThrowWithSEH_eq)
  next
    case 3
    then show ?thesis by (simp add: MaybeThrowNested_eq)
  qed
qed

theorem scenario_object_flag_fixed_and_outcome_pure_witness:
  "this (snd (MaybeThrowWithSEH \<lparr>memory = [1 \<mapsto> CHR ''a''], console = [], this = \<lparr>m_bShouldThrow = True\<rparr>\<rparr>))
     = \<lparr>m_bShouldThrow = True\<rparr>
   \<and> memory (snd (MaybeThrowWithSEH \<lparr>memory = [1 \<mapsto> CHR ''a''], console = [], this = \<lparr>m_bShouldThrow = True\<rparr>\<rparr>))
     = [1 \<mapsto> CHR ''a'']
   \<and> fst (MaybeThrowWithSEH \<lparr>memory = Map.empty, console = [(''%d'', [ArgInt 7])], this = \<lparr>m_bShouldThrow = True\<rparr>\<rparr>)
     = fst (MaybeThrowWithSEH \<lparr>memory = [1 \<mapsto> CHR ''a''], console = [], this = \<lparr>m_bShouldThrow = True\<rparr>\<rparr>)"
  using scenario_object_flag_fixed_and_outcome_pure
    [of MaybeThrowWithSEH
        "\<lparr>memory = [1 \<mapsto> CHR ''a''], console = [], this = \<lparr>m_bShouldThrow = True\<rparr>\<rparr>"
        "\<lparr>memory = Map.empty, console = [(''%d'', [ArgInt 7])], this = \<lparr>m_bShouldThrow = True\<rparr>\<rparr>"]
  by simp

subsection \<open>The orchestrating probe\<close>

text \<open>
  C1: every call of the orchestrating probe \<^verbatim>\<open>ARM64EC_TestFunctionWithEH\<close> returns one
  of the codes 0, 1 and 2, and never -1. With \<open>first\<close> the outcome of the
  language-exception probe on the function's object and \<open>second\<close> the outcome of the
  nested-rethrow probe in the state the first one leaves, the code is 1 when the first
  probe returned false, else 2 when the second returned false, else 0; the same holds
  of the function body on any object. The statements of the function map the outcomes
  of any two calls in this way: for calls that return, 1 when the first returns false,
  else 2 when the second returns false, else 0, so a first call returning true and a
  second returning false give 2; a C++ exception leaving either call gives -1.
\<close>

theorem TestFunctionWithEH_code:
  "(let f = \<lparr>memory = memory w, console = console w, this = DllARM64EC_CppxdataUsage_default\<rparr>;
        first = fst (MaybeThrow f);
        second = fst (MaybeThrowNested (snd (MaybeThrow f)));
        code = fst (ARM64EC_TestFunctionWithEH w)
    in code \<in> {Return 0, Return 1, Return 2}
     \<and> code \<noteq> Return (- 1)
     \<and> code = (if first = Return False then Return 1
               else if second = Return False then Return 2
               else Return 0))
   \<and> (let f = \<lparr>memory = memory w, console = console w, this = obj\<rparr>;
        first = fst (MaybeThrow f);
        second = fst (MaybeThrowNested (snd (MaybeThrow f)));
        code = fst (TestFunctionWithEH_body obj w)
    in code \<in> {Return 0, Return 1, Return 2}
     \<and> code \<noteq> Return (- 1)
     \<and> code = (if first = Return False then Return 1
               else if second = Return False then Return 2
               else Return 0))
   \<and> fst (TestFunctionWithEH_statements
             (\<lambda>s. (Return (r1 s), g1 s)) (\<lambda>s. (Return (r2 s), g2 s)) s) =
       Return (if \<not> r1 s then 1 else if \<not> r2 (g1 s) then 2 else 0)
   \<and> fst (TestFunctionWithEH_statements (\<lambda>s. (Return True, g1 s)) (\<lambda>s. (Return False, g2 s)) s)
       = Return 2
   \<and> fst (TestFunctionWithEH_statements (\<lambda>s. (Throw (Language e), g1 s)) second_call s)
       = Return (- 1)
   \<and> fst (TestFunctionWithEH_statements
             (\<lambda>s. (Return True, g1 s)) (\<lambda>s. (Throw (Language e), g2 s)) s)
       = Return (- 1)"
proof -
  have exported: "ARM64EC_TestFunctionWithEH w =
      TestFunctionWithEH_body DllARM64EC_CppxdataUsage_default w"
    by (simp add: ARM64EC_TestFunctionWithEH_def)
  have body: "let f = \<lparr>memory = memory w, console = console w, this = obj'\<rparr>;
        first = fst (MaybeThrow f);
        second = fst (MaybeThrowNested (snd (MaybeThrow f)));
        code = fst (TestFunctionWithEH_body obj' w)
    in code \<in> {Return 0, Return 1, Return 2}
     \<and> code \<noteq> Return (- 1)
     \<and> code = (if first = Return False then Return 1
               else if second = Return False then Return 2
               else Return 0)" for obj'
    by (simp add: Let_def TestFunctionWithEH_body_eq MaybeThrow_eq MaybeThrowNested_eq)
  have abstract: "fst (TestFunctionWithEH_statements
             (\<lambda>s. (Return (r1 s), g1 s)) (\<lambda>s. (Return (r2 s), g2 s)) s) =
       Return (if \<not> r1 s then 1 else if \<not> r2 (g1 s) then 2 else 0)"
    by (simp add: TestFunctionWithEH_statements_returning)
  have two: "fst (TestFunctionWithEH_statements
      (\<lambda>s. (Return True, g1 s)) (\<lambda>s. (Return False, g2 s)) s) = Return 2"
    by (simp add: TestFunctionWithEH_statements_returning)
  from body [of DllARM64EC_CppxdataUsage_default] body [of obj] abstract two
    TestFunctionWithEH_statements_first_throws [of e g1 second_call s]
    TestFunctionWithEH_statements_second_throws [of g1 e g2 s]
  show ?thesis
    unfolding exported by (intro conjI)
qed

text \<open>
  C3: the object of the orchestrating probe has its trigger flag set, and the probe
  returns 1: the report of the language-exception probe and of its handling is all it
  prints, the nested-rethrow probe (which would return false as well) is not run. The
  function body on an object with the flag set does the same; on an object with the
  flag clear it returns 0 and prints nothing.
\<close>

theorem TestFunctionWithEH_flag_set_1_clear_0:
  "m_bShouldThrow DllARM64EC_CppxdataUsage_default
   \<and> ARM64EC_TestFunctionWithEH w =
     (Return 1,
      w\<lparr>console := console w @
        [(''Caught exception: %s\<newline>'', [ArgString ''ARM64EC dummy exception'']),
         (''ARM64EC exception was caught and handled\<newline>'', [])]\<rparr>)
   \<and> fst (MaybeThrowNested
        \<lparr>memory = memory w, console = console w, this = DllARM64EC_CppxdataUsage_default\<rparr>)
       = Return False
   \<and> TestFunctionWithEH_body \<lparr>m_bShouldThrow = True\<rparr> w =
     (Return 1,
      w\<lparr>console := console w @
        [(''Caught exception: %s\<newline>'', [ArgString ''ARM64EC dummy exception'']),
         (''ARM64EC exception was caught and handled\<newline>'', [])]\<rparr>)
   \<and> fst (MaybeThrowNested \<lparr>memory = memory w, console = console w, this = \<lparr>m_bShouldThrow = True\<rparr>\<rparr>)
       = Return False
   \<and> TestFunctionWithEH_body \<lparr>m_bShouldThrow = False\<rparr> w = (Return 0, w)"
  by (simp add: ARM64EC_TestFunctionWithEH_def DllARM64EC_CppxdataUsage_default_def
      TestFunctionWithEH_body_eq MaybeThrowNested_eq)

text \<open>
  C10: the member \<^verbatim>\<open>m_bShouldThrow\<close> is initialised to true and the exported
  function builds its object with that default, so every call of
  \<^verbatim>\<open>ARM64EC_TestFunctionWithEH\<close> returns 1; none of 0, 2 and -1 is returned.
\<close>

theorem ARM64EC_TestFunctionWithEH_always_1:
  "m_bShouldThrow DllARM64EC_CppxdataUsage_default
   \<and> fst (ARM64EC_TestFunctionWithEH w) = Return 1
   \<and> fst (ARM64EC_TestFunctionWithEH w) \<notin> {Return 0, Return 2, Return (- 1)}"
  by (simp add: ARM64EC_TestFunctionWithEH_def TestFunctionWithEH_body_eq
      DllARM64EC_CppxdataUsage_default_def)

subsection \<open>The pointer probe\<close>

text \<open>
  C5: the pointer probe returns its argument unchanged for every address. For the null
  pointer it does nothing else, and raises nothing; for any other address it prints
  the address, without reading or writing the memory.
\<close>

theorem ARM64EC_TestPointer_identity:
  "ARM64EC_TestPointer p w =
     (Return p,
      if p = 0 then w
      else w\<lparr>console := console w @ [(''ARM64EC pointer test: %p\<newline>'', [ArgPointer p])]\<rparr>)
   \<and> ARM64EC_TestPointer 0 w = (Return 0, w)"
  by (simp add: ARM64EC_TestPointer_def stmt_defs)

subsection \<open>Rounding to nearest\<close>

text \<open>
  What \<open>round_binary64\<close> delivers: for an exact value in the range of the normal
  numbers the result is finite and differs from the exact value by at most the unit
  roundoff times that value. The multiplication and the addition of \<open>binary64_fpu\<close>
  inherit this, since they round the exact product and the exact sum.
\<close>

lemma bit_length_bounds:
  "0 < m \<Longrightarrow> 2 ^ (bit_length m - 1) \<le> m \<and> m < 2 ^ bit_length m"
proof (induction m rule: bit_length.induct)
  case (1 n)
  show ?case
  proof (cases "n = 1")
    case True
    then show ?thesis
      by (simp add: bit_length.simps [of 1] bit_length.simps [of 0])
  next
    case False
    with "1.prems" have half: "0 < n div 2"
      by simp
    with "1.prems" "1.IH" have ih: "2 ^ (bit_length (n div 2) - 1) \<le> n div 2 \<and> n div 2 < 2 ^ bit_length (n div 2)"
      by simp
    from half have pos: "0 < bit_length (n div 2)"
      by (simp add: bit_length.simps [of "n div 2"])
    have len: "bit_length n = Suc (bit_length (n div 2))"
      using "1.prems" by (simp add: bit_length.simps [of n])
    from pos have "(2::int) ^ bit_length (n div 2) = 2 * 2 ^ (bit_length (n div 2) - 1)"
      by (cases "bit_length (n div 2)") simp_all
    with ih have "2 ^ bit_length (n div 2) \<le> n" and "n < 2 * 2 ^ bit_length (n div 2)"
      by linarith+
    then show ?thesis
      using len by simp
  qed
qed

lemma uint_encoding:
  fixes b :: int
  assumes "0 \<le> b" and "b < 2047 * 2 ^ 52"
  shows "uint ((if neg then sign_mask else 0) OR (word_of_int b :: double))
     = (if neg then 2 ^ 63 else 0) OR b"
proof -
  have "b < 2 ^ 64"
    using assms by simp
  with assms have "take_bit 64 b = b"
    by (simp add: take_bit_int_eq_self)
  then show ?thesis
    by (simp add: unsigned_or_eq uint_word_of_int_eq sign_mask_def)
qed

lemma fields_of_encoding:
  fixes b :: int and neg :: bool
  assumes "0 \<le> b" and "b < 2047 * 2 ^ 52"
  defines "d \<equiv> (if neg then sign_mask else 0) OR (word_of_int b :: double)"
  shows "sign_of d = neg"
    and "exponent_field d = b div 2 ^ 52"
    and "fraction_field d = b mod 2 ^ 52"
proof -
  have u: "uint d = (if neg then 2 ^ 63 else 0) OR b"
    unfolding d_def using assms(1,2) by (rule uint_encoding)
  have small: "b < 2 ^ 63"
    using assms by simp
  have "\<not> bit b 63"
    using assms(1) small by (simp add: bit_iff_odd_drop_bit drop_bit_eq_div)
  then have "bit (uint d) 63 \<longleftrightarrow> neg"
    by (simp add: u bit_or_iff bit_exp_iff)
  then show "sign_of d = neg"
    by (simp add: sign_of_def bit_uint_iff)
  have e_small: "b div 2 ^ 52 < 2 ^ 11"
    using assms by simp
  have "0 \<le> b div 2 ^ 52"
    using assms by simp
  with e_small have tb: "take_bit 11 (b div 2 ^ 52) = b div 2 ^ 52"
    by (simp add: take_bit_int_eq_self)
  have whole: "take_bit 64 (uint d) = uint d"
    using uint_lt2p [of d] by (intro take_bit_int_eq_self) simp_all
  have top: "take_bit 11 (drop_bit 52 (if neg then (2::int) ^ 63 else 0)) = 0"
    "take_bit 52 (if neg then (2::int) ^ 63 else 0) = 0"
    by (cases neg; simp add: drop_bit_exp_eq)+
  have "exponent_field d = take_bit 11 (drop_bit 52 (uint d))"
    by (simp add: exponent_field_def unsigned_take_bit_eq unsigned_drop_bit_eq whole)
  also have "\<dots> = take_bit 11 (drop_bit 52 (if neg then (2::int) ^ 63 else 0))
      OR take_bit 11 (drop_bit 52 b)"
    by (simp only: u drop_bit_or take_bit_or)
  also have "\<dots> = b div 2 ^ 52"
    using tb by (simp only: top) (simp add: drop_bit_eq_div)
  finally show "exponent_field d = b div 2 ^ 52" .
  have "fraction_field d = take_bit 52 (uint d)"
    by (simp add: fraction_field_def unsigned_take_bit_eq)
  also have "\<dots> = take_bit 52 (if neg then (2::int) ^ 63 else 0) OR take_bit 52 b"
    by (simp only: u take_bit_or)
  also have "\<dots> = b mod 2 ^ 52"
    by (simp only: top) (simp add: take_bit_eq_mod)
  finally show "fraction_field d = b mod 2 ^ 52" .
qed


lemma scale_powi: "scale e = 2 powi e"
  by (simp add: scale_def power_int_def power_inverse inverse_eq_divide power_one_over)

lemma scale_pos: "0 < scale e"
  by (simp add: scale_powi)

lemma scale_add: "scale (a + b) = scale a * scale b"
  by (simp add: scale_powi power_int_add)

lemma scale_nat: "scale (int n) = 2 ^ n"
  by (simp add: scale_powi)

lemma scale_le: "a \<le> b \<Longrightarrow> scale a \<le> scale b"
  by (simp add: scale_powi power_int_increasing)

lemma scale_less: "a < b \<Longrightarrow> scale a < scale b"
  by (simp add: scale_powi power_int_strict_increasing)

lemma scale_less_imp: "scale a < scale b \<Longrightarrow> a < b"
  using scale_le [of b a] by (cases "a < b") simp_all

lemma scale_Suc: "scale (e + 1) = 2 * scale e"
  using scale_add [of e 1] scale_nat [of 1] by simp

lemma divmod_52:
  fixes k r :: int
  assumes "0 \<le> r" and "r < 2 ^ 52"
  shows "(k * 2 ^ 52 + r) div 2 ^ 52 = k" and "(k * 2 ^ 52 + r) mod 2 ^ 52 = r"
  using assms by simp_all

lemma valof_encoding:
  fixes E m' :: int and neg :: bool
  assumes E: "0 \<le> E" and m': "0 \<le> m'" "m' \<le> 2 ^ 53"
    and normal: "E = 0 \<or> 2 ^ 52 \<le> m'"
    and range: "E * 2 ^ 52 + m' < 2047 * 2 ^ 52"
  defines "d \<equiv> (if neg then sign_mask else 0) OR (word_of_int (E * 2 ^ 52 + m') :: double)"
  shows "is_finite d"
    and "valof d = (if neg then - 1 else 1) * real_of_int m' * scale (E - 1074)"
proof -
  have nonneg: "0 \<le> E * 2 ^ 52 + m'"
    using E m' by simp
  note fields = fields_of_encoding [OF nonneg range, of neg, folded d_def]
  have "(E * 2 ^ 52 + m') div 2 ^ 52 < 2047"
    using range by simp
  then show "is_finite d"
    by (simp add: is_finite_def fields)
  consider (subnormal) "m' < 2 ^ 52" | (normal) "2 ^ 52 \<le> m'" "m' < 2 ^ 53" | (carry) "m' = 2 ^ 53"
    using m' by fastforce
  then show "valof d = (if neg then - 1 else 1) * real_of_int m' * scale (E - 1074)"
  proof cases
    case subnormal
    with normal have zero: "E = 0"
      by simp
    from subnormal m' have "exponent_field d = 0" and "fraction_field d = m'"
      using divmod_52 [of m' 0] by (simp_all add: fields zero)
    then show ?thesis
      by (simp add: valof_def significand_def exponent_def fields zero)
  next
    case normal
    have split: "E * 2 ^ 52 + m' = (E + 1) * 2 ^ 52 + (m' - 2 ^ 52)"
      by (simp add: algebra_simps)
    from normal have "exponent_field d = E + 1" and "fraction_field d = m' - 2 ^ 52"
      using divmod_52 [of "m' - 2 ^ 52" "E + 1"] by (simp_all add: fields split)
    with E show ?thesis
      by (simp add: valof_def significand_def exponent_def fields)
  next
    case carry
    have "exponent_field d = E + 2" and "fraction_field d = 0"
      by (simp_all add: fields carry)
    moreover have "scale (E + 2 - 1075) = 2 * scale (E - 1074)"
      using scale_Suc [of "E - 1074"] by (simp add: algebra_simps)
    ultimately show ?thesis
      using E by (simp add: valof_def significand_def exponent_def fields carry)
  qed
qed


lemma bit_length_pos: "0 < m \<Longrightarrow> 0 < bit_length m"
  by (simp add: bit_length.simps [of m])

lemma rounded_exponent_cases:
  "rounded_exponent m e = e + int (bit_length m) - 53 \<and> - 1074 \<le> e + int (bit_length m) - 53
   \<or> rounded_exponent m e = - 1074 \<and> e + int (bit_length m) - 53 \<le> - 1074"
  by (auto simp: rounded_exponent_def max_def)

lemma rounded_significand_exact:
  assumes "rounded_exponent m e \<le> e"
  shows "rounded_significand m e = m * 2 ^ nat (e - rounded_exponent m e)"
  using assms by (simp add: rounded_significand_def Let_def)

lemma rounded_significand_inexact:
  assumes "e < rounded_exponent m e"
  defines "k \<equiv> nat (rounded_exponent m e - e)"
  shows "rounded_significand m e =
     (if 2 ^ (k - 1) < m mod 2 ^ k \<or> (m mod 2 ^ k = 2 ^ (k - 1) \<and> odd (m div 2 ^ k))
      then m div 2 ^ k + 1 else m div 2 ^ k)"
  using assms by (simp add: rounded_significand_def Let_def)

lemma rounded_significand_bounds:
  assumes m: "0 < m"
  shows "0 \<le> rounded_significand m e"
    and "rounded_significand m e \<le> 2 ^ 53"
    and "rounded_exponent m e = - 1074 \<or> 2 ^ 52 \<le> rounded_significand m e"
proof -
  define L where "L = bit_length m"
  define re where "re = rounded_exponent m e"
  from m have L: "0 < L"
    unfolding L_def by (rule bit_length_pos)
  from bit_length_bounds [OF m] have lo: "2 ^ (L - 1) \<le> m" and hi: "m < 2 ^ L"
    by (simp_all add: L_def)
  have re_ge: "e + int L - 53 \<le> re"
    by (simp add: re_def rounded_exponent_def L_def)
  have re_cases: "re = e + int L - 53 \<or> re = - 1074"
    using rounded_exponent_cases [of m e] by (auto simp: re_def L_def)
  show "0 \<le> rounded_significand m e"
    and "rounded_significand m e \<le> 2 ^ 53"
    and "rounded_exponent m e = - 1074 \<or> 2 ^ 52 \<le> rounded_significand m e"
  proof (atomize (full), cases "re \<le> e")
    case True
    define j where "j = nat (e - re)"
    from True have j: "int j = e - re"
      by (simp add: j_def)
    have rs: "rounded_significand m e = m * 2 ^ j"
      using True by (simp add: rounded_significand_exact re_def j_def)
    from j re_ge have "L + j \<le> 53"
      by linarith
    then have "(2::int) ^ (L + j) \<le> 2 ^ 53"
      by (intro power_increasing) simp_all
    moreover have "m * 2 ^ j \<le> 2 ^ L * 2 ^ j"
      using hi by (intro mult_right_mono) simp_all
    moreover have "(2::int) ^ L * 2 ^ j = 2 ^ (L + j)"
      by (simp add: power_add)
    ultimately have upper: "m * 2 ^ j \<le> 2 ^ 53"
      by (simp only:)
    have lower: "2 ^ 52 \<le> m * 2 ^ j" if "re = e + int L - 53"
    proof -
      from that j L have "(L - 1) + j = 52"
        by linarith
      then have "(2::int) ^ 52 = 2 ^ (L - 1) * 2 ^ j"
        by (simp add: power_add [symmetric])
      also have "\<dots> \<le> m * 2 ^ j"
        using lo by simp
      finally show ?thesis .
    qed
    from upper lower re_cases m show "0 \<le> rounded_significand m e \<and>
        rounded_significand m e \<le> 2 ^ 53 \<and>
        (rounded_exponent m e = - 1074 \<or> 2 ^ 52 \<le> rounded_significand m e)"
      by (auto simp: rs re_def)
  next
    case False
    define k where "k = nat (re - e)"
    from False have k: "int k = re - e" and k_pos: "0 < k"
      by (simp_all add: k_def)
    define q where "q = m div 2 ^ k"
    define r where "r = m mod 2 ^ k"
    have decomp: "m = q * 2 ^ k + r"
      unfolding q_def r_def by (rule div_mult_mod_eq [symmetric])
    have r: "0 \<le> r" "r < 2 ^ k"
      by (simp_all add: r_def)
    have q_nonneg: "0 \<le> q"
      using m by (simp add: q_def pos_imp_zdiv_nonneg_iff)
    have rs: "rounded_significand m e = q \<or> rounded_significand m e = q + 1"
      using False rounded_significand_inexact [of e m]
      by (simp add: re_def k_def q_def r_def)
    from k re_ge have "L \<le> k + 53"
      by linarith
    then have "(2::int) ^ L \<le> 2 ^ (k + 53)"
      by (intro power_increasing) simp_all
    moreover have "(2::int) ^ (k + 53) = 2 ^ 53 * 2 ^ k"
      by (simp only: power_add mult.commute)
    moreover have "q * 2 ^ k \<le> m"
      using decomp r by linarith
    ultimately have "q * 2 ^ k < 2 ^ 53 * 2 ^ k"
      using hi by linarith
    then have q_less: "q < 2 ^ 53"
      by (simp only: mult_less_cancel_right) simp
    have lower: "2 ^ 52 \<le> q" if "re = e + int L - 53"
    proof -
      from that k L have "L - 1 = k + 52"
        by linarith
      then have "(2::int) ^ (L - 1) = 2 ^ 52 * 2 ^ k"
        by (simp only: power_add mult.commute)
      with lo have "2 ^ 52 * 2 ^ k \<le> m"
        by (simp only:)
      then have "(2 ^ 52 * 2 ^ k) div 2 ^ k \<le> m div 2 ^ k"
        by (intro zdiv_mono1) simp_all
      then show ?thesis
        by (simp add: q_def)
    qed
    from rs q_nonneg q_less lower re_cases
    show "0 \<le> rounded_significand m e \<and>
        rounded_significand m e \<le> 2 ^ 53 \<and>
        (rounded_exponent m e = - 1074 \<or> 2 ^ 52 \<le> rounded_significand m e)"
      by (auto simp: re_def)
  qed
qed


lemma rounded_significand_error:
  assumes m: "0 < m"
  shows "\<bar>real_of_int (rounded_significand m e) * scale (rounded_exponent m e)
          - real_of_int m * scale e\<bar> \<le> scale (rounded_exponent m e) / 2"
proof (cases "rounded_exponent m e \<le> e")
  case True
  define j where "j = nat (e - rounded_exponent m e)"
  from True have "e = rounded_exponent m e + int j"
    by (simp add: j_def)
  then have "scale e = scale (rounded_exponent m e) * 2 ^ j"
    using scale_add [of "rounded_exponent m e" "int j"] by (simp add: scale_nat)
  moreover have "rounded_significand m e = m * 2 ^ j"
    using True by (simp add: rounded_significand_exact j_def)
  ultimately have "real_of_int (rounded_significand m e) * scale (rounded_exponent m e)
      = real_of_int m * scale e"
    by simp
  then show ?thesis
    using scale_pos [of "rounded_exponent m e"] by simp
next
  case False
  define k where "k = nat (rounded_exponent m e - e)"
  define q where "q = m div 2 ^ k"
  define r where "r = m mod 2 ^ k"
  define half :: int where "half = 2 ^ (k - 1)"
  define rs where "rs = rounded_significand m e"
  from False have k_pos: "0 < k" and k: "rounded_exponent m e = e + int k"
    by (simp_all add: k_def)
  have decomp: "m = q * 2 ^ k + r"
    unfolding q_def r_def by (rule div_mult_mod_eq [symmetric])
  have r: "0 \<le> r" "r < 2 ^ k"
    by (simp_all add: r_def)
  from k_pos have double: "(2::int) ^ k = 2 * half"
    by (cases k) (simp_all add: half_def)
  from double have "real_of_int (2 ^ k) = real_of_int (2 * half)"
    by (simp only:)
  then have double_real: "(2::real) ^ k = 2 * real_of_int half"
    by simp
  have rs: "rs = (if half < r \<or> (r = half \<and> odd q) then q + 1 else q)"
    using False rounded_significand_inexact [of e m]
    by (simp add: rs_def k_def q_def r_def half_def)
  have "\<bar>rs * 2 ^ k - m\<bar> \<le> half"
  proof (cases "half < r \<or> (r = half \<and> odd q)")
    case True
    then have "rs * 2 ^ k - m = 2 ^ k - r"
      by (simp add: rs decomp algebra_simps)
    with True r double show ?thesis
      by auto
  next
    case False
    then have "rs * 2 ^ k - m = - r"
      by (simp add: rs decomp)
    with False r show ?thesis
      by auto
  qed
  then have "real_of_int \<bar>rs * 2 ^ k - m\<bar> \<le> real_of_int half"
    by (simp only: of_int_le_iff)
  then have int_error: "\<bar>real_of_int rs * 2 ^ k - real_of_int m\<bar> \<le> real_of_int half"
    by simp
  have scale_re: "scale (rounded_exponent m e) = scale e * 2 ^ k"
    using scale_add [of e "int k"] by (simp add: k scale_nat)
  have "real_of_int rs * scale (rounded_exponent m e) - real_of_int m * scale e
      = scale e * (real_of_int rs * 2 ^ k - real_of_int m)"
    by (simp add: scale_re algebra_simps)
  then have "\<bar>real_of_int rs * scale (rounded_exponent m e) - real_of_int m * scale e\<bar>
      = scale e * \<bar>real_of_int rs * 2 ^ k - real_of_int m\<bar>"
    using scale_pos [of e] by (simp add: abs_mult)
  also have "\<dots> \<le> scale e * real_of_int half"
    using int_error scale_pos [of e] by (intro mult_left_mono) simp_all
  also have "\<dots> = scale (rounded_exponent m e) / 2"
    by (simp add: scale_re double_real)
  finally show ?thesis
    by (simp add: rs_def)
qed

lemma rounded_normal_error:
  assumes m: "0 < m" and normal: "- 1074 \<le> e + int (bit_length m) - 53"
  shows "scale (rounded_exponent m e) / 2 \<le> unit_roundoff * (real_of_int m * scale e)"
proof -
  define L where "L = bit_length m"
  from m have L: "0 < L"
    unfolding L_def by (rule bit_length_pos)
  from bit_length_bounds [OF m] have lo: "2 ^ (L - 1) \<le> m"
    by (simp add: L_def)
  from normal have re: "rounded_exponent m e = e + int L - 53"
    by (simp add: rounded_exponent_def L_def)
  from L have "e + int (L - 1) = rounded_exponent m e + 52"
    by (simp add: re)
  then have "scale e * 2 ^ (L - 1) = scale (rounded_exponent m e) * 2 ^ 52"
    using scale_add [of e "int (L - 1)"] scale_add [of "rounded_exponent m e" 52]
      scale_nat [of "L - 1"] scale_nat [of 52]
    by simp
  moreover have "real_of_int (2 ^ (L - 1)) * scale e \<le> real_of_int m * scale e"
    using lo scale_pos [of e] by (intro mult_right_mono) (simp_all only: of_int_le_iff less_imp_le)
  ultimately have "scale (rounded_exponent m e) * 2 ^ 52 \<le> real_of_int m * scale e"
    by (simp add: mult.commute)
  then show ?thesis
    by (simp add: unit_roundoff_def)
qed

lemma round_binary64_finite:
  assumes m: "0 < m"
    and range: "(rounded_exponent m e + 1074) * 2 ^ 52 + rounded_significand m e < 2047 * 2 ^ 52"
  shows "is_finite (round_binary64 neg m e)"
    and "valof (round_binary64 neg m e) =
      (if neg then - 1 else 1) * real_of_int (rounded_significand m e) * scale (rounded_exponent m e)"
proof -
  have E: "0 \<le> rounded_exponent m e + 1074"
    by (simp add: rounded_exponent_def)
  have normal: "rounded_exponent m e + 1074 = 0 \<or> 2 ^ 52 \<le> rounded_significand m e"
    using rounded_significand_bounds(3) [OF m, of e] by auto
  have d: "round_binary64 neg m e = (if neg then sign_mask else 0) OR
      (word_of_int ((rounded_exponent m e + 1074) * 2 ^ 52 + rounded_significand m e) :: double)"
    using m range by (simp add: round_binary64_def Let_def)
  note enc = valof_encoding [OF E rounded_significand_bounds(1,2) [OF m, of e] normal range, of neg]
  from enc(1) show "is_finite (round_binary64 neg m e)"
    by (simp only: d)
  from enc(2) show "valof (round_binary64 neg m e) =
      (if neg then - 1 else 1) * real_of_int (rounded_significand m e) * scale (rounded_exponent m e)"
    by (simp only: d) simp
qed


lemma round_binary64_rounds:
  assumes m: "0 < m"
    and lower: "scale (- 1022) \<le> real_of_int m * scale e"
    and upper: "real_of_int m * scale e < scale 1023"
  shows "is_finite (round_binary64 neg m e)"
    and "\<bar>valof (round_binary64 neg m e) - (if neg then - 1 else 1) * (real_of_int m * scale e)\<bar>
          \<le> unit_roundoff * (real_of_int m * scale e)"
proof -
  define L where "L = bit_length m"
  from m have L: "0 < L"
    unfolding L_def by (rule bit_length_pos)
  from bit_length_bounds [OF m] have lo: "2 ^ (L - 1) \<le> m" and hi: "m < 2 ^ L"
    by (simp_all add: L_def)
  from hi have "real_of_int m < real_of_int (2 ^ L)"
    by (simp only: of_int_less_iff)
  then have "real_of_int m * scale e < 2 ^ L * scale e"
    using scale_pos [of e] by simp
  also have "\<dots> = scale (e + int L)"
    using scale_add [of e "int L"] by (simp add: scale_nat)
  finally have "scale (- 1022) < scale (e + int L)"
    using lower by simp
  then have "- 1022 < e + int L"
    by (rule scale_less_imp)
  then have normal: "- 1074 \<le> e + int (bit_length m) - 53"
    by (simp add: L_def)
  from lo have "real_of_int (2 ^ (L - 1)) \<le> real_of_int m"
    by (simp only: of_int_le_iff)
  then have "2 ^ (L - 1) * scale e \<le> real_of_int m * scale e"
    using scale_pos [of e] by simp
  moreover have "2 ^ (L - 1) * scale e = scale (e + int (L - 1))"
    using scale_add [of e "int (L - 1)"] by (simp add: scale_nat)
  ultimately have "scale (e + int (L - 1)) < scale 1023"
    using upper by simp
  then have "e + int (L - 1) < 1023"
    by (rule scale_less_imp)
  with L normal have re: "rounded_exponent m e \<le> 970"
    by (simp add: rounded_exponent_def L_def)
  then have "(rounded_exponent m e + 1074) * 2 ^ 52 \<le> 2044 * 2 ^ 52"
    by (intro mult_right_mono) simp_all
  with rounded_significand_bounds(2) [OF m, of e]
  have range: "(rounded_exponent m e + 1074) * 2 ^ 52 + rounded_significand m e < 2047 * 2 ^ 52"
    by simp
  from round_binary64_finite(1) [OF m range]
  show "is_finite (round_binary64 neg m e)" .
  have "valof (round_binary64 neg m e) - (if neg then - 1 else 1) * (real_of_int m * scale e)
      = (if neg then - 1 else 1)
        * (real_of_int (rounded_significand m e) * scale (rounded_exponent m e)
           - real_of_int m * scale e)"
    by (simp add: round_binary64_finite(2) [OF m range] algebra_simps)
  then have "\<bar>valof (round_binary64 neg m e) - (if neg then - 1 else 1) * (real_of_int m * scale e)\<bar>
      = \<bar>real_of_int (rounded_significand m e) * scale (rounded_exponent m e)
           - real_of_int m * scale e\<bar>"
    by (simp add: abs_mult)
  also have "\<dots> \<le> scale (rounded_exponent m e) / 2"
    using m by (rule rounded_significand_error)
  also have "\<dots> \<le> unit_roundoff * (real_of_int m * scale e)"
    using m normal by (rule rounded_normal_error)
  finally show "\<bar>valof (round_binary64 neg m e) - (if neg then - 1 else 1) * (real_of_int m * scale e)\<bar>
          \<le> unit_roundoff * (real_of_int m * scale e)" .
qed

lemma significand_nonneg: "0 \<le> significand d"
  by (simp add: significand_def fraction_field_def)

lemma finite_not_special: "is_finite d \<Longrightarrow> \<not> is_nan d \<and> \<not> is_infinity d"
  by (simp add: is_finite_def is_nan_def is_infinity_def)

lemma binary64_mul_rounds:
  assumes a: "is_finite a" and b: "is_finite b"
    and lower: "scale (- 1022) \<le> \<bar>valof a * valof b\<bar>"
    and upper: "\<bar>valof a * valof b\<bar> < scale 1023"
  shows "is_finite (binary64_mul a b)"
    and "\<bar>valof (binary64_mul a b) - valof a * valof b\<bar> \<le> unit_roundoff * \<bar>valof a * valof b\<bar>"
proof -
  define m where "m = significand a * significand b"
  define e where "e = exponent a + exponent b"
  define neg where "neg = (sign_of a \<noteq> sign_of b)"
  have product: "valof a * valof b = (if neg then - 1 else 1) * (real_of_int m * scale e)"
    by (simp add: valof_def m_def e_def neg_def scale_add)
  have "0 \<le> m"
    by (simp add: m_def significand_nonneg)
  then have magnitude: "\<bar>valof a * valof b\<bar> = real_of_int m * scale e"
    using scale_pos [of e] by (simp add: product abs_mult)
  from lower scale_pos [of "- 1022"] have "0 < real_of_int m * scale e"
    by (simp add: magnitude)
  with \<open>0 \<le> m\<close> have m: "0 < m"
    by (cases "m = 0") simp_all
  have result: "binary64_mul a b = round_binary64 neg m e"
    using finite_not_special [OF a] finite_not_special [OF b]
    by (simp add: binary64_mul_def m_def e_def neg_def)
  from lower upper have range: "scale (- 1022) \<le> real_of_int m * scale e"
      "real_of_int m * scale e < scale 1023"
    by (simp_all add: magnitude)
  from round_binary64_rounds(1) [OF m range] show "is_finite (binary64_mul a b)"
    by (simp only: result)
  from round_binary64_rounds(2) [OF m range, of neg]
  show "\<bar>valof (binary64_mul a b) - valof a * valof b\<bar> \<le> unit_roundoff * \<bar>valof a * valof b\<bar>"
    by (simp only: result magnitude) (simp only: product)
qed


lemma signed_zero:
  shows "is_finite sign_mask" and "is_finite 0" and "valof sign_mask = 0" and "valof 0 = 0"
proof -
  have "exponent_field sign_mask = 0 \<and> fraction_field sign_mask = 0
      \<and> exponent_field 0 = 0 \<and> fraction_field 0 = 0"
    by code_simp
  then show "is_finite sign_mask" and "is_finite 0" and "valof sign_mask = 0" and "valof 0 = 0"
    by (simp_all add: is_finite_def valof_def significand_def)
qed

lemma round_binary64_zero: "round_binary64 neg 0 e = (if neg then sign_mask else 0)"
  by (simp add: round_binary64_def Let_def)

lemma binary64_mul_zero:
  assumes a: "is_finite a" and b: "is_finite b" and zero: "valof a * valof b = 0"
  shows "is_finite (binary64_mul a b)" and "valof (binary64_mul a b) = 0"
proof -
  have "valof a * valof b =
      (if sign_of a \<noteq> sign_of b then - 1 else 1)
      * (real_of_int (significand a * significand b) * scale (exponent a + exponent b))"
    by (simp add: valof_def scale_add)
  with zero scale_pos [of "exponent a + exponent b"] have "significand a * significand b = 0"
    by (simp split: if_splits)
  then have result: "binary64_mul a b = (if sign_of a \<noteq> sign_of b then sign_mask else 0)"
    using finite_not_special [OF a] finite_not_special [OF b]
    by (simp only: binary64_mul_def round_binary64_zero) simp
  show "is_finite (binary64_mul a b)" and "valof (binary64_mul a b) = 0"
    by (simp_all add: result signed_zero)
qed

lemma binary64_add_exact:
  fixes a b :: double
  defines "e \<equiv> min (exponent a) (exponent b)"
  defines "exact \<equiv> (if sign_of a then - 1 else 1) * significand a * 2 ^ nat (exponent a - e)
                   + (if sign_of b then - 1 else 1) * significand b * 2 ^ nat (exponent b - e)"
  assumes a: "is_finite a" and b: "is_finite b"
  shows "real_of_int exact * scale e = valof a + valof b"
    and "binary64_add a b =
      (if exact = 0 then (if sign_of a \<and> sign_of b then sign_mask else 0)
       else round_binary64 (exact < 0) \<bar>exact\<bar> e)"
proof -
  have "exponent a = e + int (nat (exponent a - e))" and "exponent b = e + int (nat (exponent b - e))"
    by (simp_all add: e_def)
  then have "scale (exponent a) = scale e * 2 ^ nat (exponent a - e)"
    and "scale (exponent b) = scale e * 2 ^ nat (exponent b - e)"
    using scale_add [of e "int (nat (exponent a - e))"] scale_add [of e "int (nat (exponent b - e))"]
    by (simp_all only: scale_nat)
  then show "real_of_int exact * scale e = valof a + valof b"
    by (simp add: exact_def valof_def algebra_simps)
  show "binary64_add a b =
      (if exact = 0 then (if sign_of a \<and> sign_of b then sign_mask else 0)
       else round_binary64 (exact < 0) \<bar>exact\<bar> e)"
    using finite_not_special [OF a] finite_not_special [OF b]
    by (simp add: binary64_add_def Let_def exact_def e_def)
qed

lemma binary64_add_rounds:
  assumes a: "is_finite a" and b: "is_finite b"
    and range: "valof a + valof b = 0
      \<or> scale (- 1022) \<le> \<bar>valof a + valof b\<bar> \<and> \<bar>valof a + valof b\<bar> < scale 1023"
  shows "is_finite (binary64_add a b)"
    and "\<bar>valof (binary64_add a b) - (valof a + valof b)\<bar> \<le> unit_roundoff * \<bar>valof a + valof b\<bar>"
proof -
  define e where "e = min (exponent a) (exponent b)"
  define exact where
    "exact = (if sign_of a then - 1 else 1) * significand a * 2 ^ nat (exponent a - e)
           + (if sign_of b then - 1 else 1) * significand b * 2 ^ nat (exponent b - e)"
  note facts = binary64_add_exact [OF a b, folded e_def, folded exact_def]
  show "is_finite (binary64_add a b)"
    and "\<bar>valof (binary64_add a b) - (valof a + valof b)\<bar> \<le> unit_roundoff * \<bar>valof a + valof b\<bar>"
  proof (atomize (full), cases "exact = 0")
    case True
    with facts(1) have "valof a + valof b = 0"
      by simp
    moreover from True facts(2)
    have "binary64_add a b = (if sign_of a \<and> sign_of b then sign_mask else 0)"
      by simp
    ultimately show "is_finite (binary64_add a b) \<and>
        \<bar>valof (binary64_add a b) - (valof a + valof b)\<bar> \<le> unit_roundoff * \<bar>valof a + valof b\<bar>"
      by (simp add: signed_zero)
  next
    case False
    then have m: "0 < \<bar>exact\<bar>"
      by simp
    have magnitude: "\<bar>valof a + valof b\<bar> = real_of_int \<bar>exact\<bar> * scale e"
      using scale_pos [of e] by (simp add: facts(1) [symmetric] abs_mult)
    have signed: "valof a + valof b = (if exact < 0 then - 1 else 1) * (real_of_int \<bar>exact\<bar> * scale e)"
      by (simp add: facts(1) [symmetric])
    from False scale_pos [of e] have "valof a + valof b \<noteq> 0"
      by (simp add: facts(1) [symmetric])
    with range have bounds: "scale (- 1022) \<le> real_of_int \<bar>exact\<bar> * scale e"
        "real_of_int \<bar>exact\<bar> * scale e < scale 1023"
      by (simp_all add: magnitude)
    from False facts(2) have result: "binary64_add a b = round_binary64 (exact < 0) \<bar>exact\<bar> e"
      by simp
    from round_binary64_rounds(1) [OF m bounds] round_binary64_rounds(2) [OF m bounds, of "exact < 0"]
    show "is_finite (binary64_add a b) \<and>
        \<bar>valof (binary64_add a b) - (valof a + valof b)\<bar> \<le> unit_roundoff * \<bar>valof a + valof b\<bar>"
      by (simp only: result magnitude) (simp only: signed simp_thms)
  qed
qed


lemma binary64_square:
  assumes x: "is_finite x"
    and range: "valof x = 0 \<or> scale (- 510) \<le> \<bar>valof x\<bar> \<and> \<bar>valof x\<bar> < scale 510"
  shows "is_finite (binary64_mul x x)"
    and "\<bar>valof (binary64_mul x x) - valof x * valof x\<bar> \<le> unit_roundoff * (valof x * valof x)"
    and "valof (binary64_mul x x) = 0
      \<or> scale (- 1021) \<le> valof (binary64_mul x x) \<and> valof (binary64_mul x x) < scale 1021"
proof (atomize (full), cases "valof x = 0")
  case True
  then have "valof x * valof x = 0"
    by simp
  from binary64_mul_zero [OF x x this] True
  show "is_finite (binary64_mul x x) \<and>
    \<bar>valof (binary64_mul x x) - valof x * valof x\<bar> \<le> unit_roundoff * (valof x * valof x) \<and>
    (valof (binary64_mul x x) = 0
      \<or> scale (- 1021) \<le> valof (binary64_mul x x) \<and> valof (binary64_mul x x) < scale 1021)"
    by simp
next
  case False
  define a where "a = \<bar>valof x\<bar>"
  define p where "p = valof (binary64_mul x x)"
  from False range have a: "scale (- 510) \<le> a" "a < scale 510"
    by (simp_all add: a_def)
  have square: "\<bar>valof x * valof x\<bar> = a * a" and square': "valof x * valof x = a * a"
    by (simp_all add: a_def abs_mult)
  have "scale (- 510) * scale (- 510) \<le> a * a"
    using a(1) scale_pos [of "- 510"] by (intro mult_mono) simp_all
  then have lower: "scale (- 1020) \<le> a * a"
    using scale_add [of "- 510" "- 510"] by simp
  have "a * a < scale 510 * scale 510"
    using a scale_pos [of "- 510"] by (intro mult_strict_mono) simp_all
  then have upper: "a * a < scale 1020"
    using scale_add [of 510 510] by simp
  have "scale (- 1022) \<le> scale (- 1020)" and "scale 1020 \<le> scale 1023"
    by (simp_all add: scale_le)
  with lower upper have "scale (- 1022) \<le> \<bar>valof x * valof x\<bar>"
    and "\<bar>valof x * valof x\<bar> < scale 1023"
    by (simp_all only: square)
  note rounds = binary64_mul_rounds [OF x x this]
  from rounds(2) have error: "\<bar>p - a * a\<bar> \<le> unit_roundoff * (a * a)"
    unfolding square' p_def by simp
  have half: "unit_roundoff * (a * a) \<le> (a * a) / 2"
    by (simp add: unit_roundoff_def)
  have "scale (- 1020) = 2 * scale (- 1021)" and "scale 1021 = 2 * scale 1020"
    using scale_Suc [of "- 1021"] scale_Suc [of 1020] by simp_all
  with error half lower upper have "scale (- 1021) \<le> p" and "p < scale 1021"
    by linarith+
  with rounds(1) error
  show "is_finite (binary64_mul x x) \<and>
    \<bar>valof (binary64_mul x x) - valof x * valof x\<bar> \<le> unit_roundoff * (valof x * valof x) \<and>
    (valof (binary64_mul x x) = 0
      \<or> scale (- 1021) \<le> valof (binary64_mul x x) \<and> valof (binary64_mul x x) < scale 1021)"
    by (simp add: p_def square')
qed

lemma binary64_examples:
  "binary64_mul 0x3FB999999999999A 0x3FB999999999999A = 0x3F847AE147AE147C
   \<and> binary64_mul 0x7FEFFFFFFFFFFFFF 0x4000000000000000 = 0x7FF0000000000000
   \<and> binary64_mul 0x0000000000000001 0x3FE0000000000000 = 0x0000000000000000
   \<and> binary64_mul 0x0000000000000003 0x3FE0000000000000 = 0x0000000000000002
   \<and> binary64_mul 0xC008000000000000 0x4010000000000000 = 0xC028000000000000
   \<and> binary64_mul 0x8000000000000000 0x4014000000000000 = 0x8000000000000000
   \<and> binary64_add 0x3FB999999999999A 0x3FC999999999999A = 0x3FD3333333333334
   \<and> binary64_add 0x3FF0000000000000 0x3CA0000000000000 = 0x3FF0000000000000
   \<and> binary64_add 0x3FF0000000000000 0x3CA0000000000001 = 0x3FF0000000000001
   \<and> binary64_add 0x3FF0000000000001 0x3CA0000000000000 = 0x3FF0000000000002
   \<and> binary64_add 0x7FEFFFFFFFFFFFFF 0x7C90000000000000 = 0x7FF0000000000000
   \<and> binary64_add 0x7FEFFFFFFFFFFFFF 0x7C8FFFFFFFFFFFFF = 0x7FEFFFFFFFFFFFFF
   \<and> binary64_add 0x3FF8000000000000 0xBFF8000000000000 = 0x0000000000000000
   \<and> binary64_add 0x8000000000000000 0x8000000000000000 = 0x8000000000000000
   \<and> binary64_of_int32 0 = 0x0000000000000000
   \<and> binary64_of_int32 1 = double_1_0
   \<and> binary64_of_int32 (- 1) = 0xBFF0000000000000
   \<and> binary64_of_int32 10 = 0x4024000000000000
   \<and> binary64_of_int32 2147483647 = 0x41DFFFFFFFC00000
   \<and> binary64_of_int32 (- 2147483648) = 0xC1E0000000000000"
  by code_simp

lemma TestFunction2_binary64:
  "snd (TestFunction2_loop binary64_fpu (1, double_1_0)) = 0x414BAF8000000000"
proof -
  have "foldl (\<lambda>acc j. fmul binary64_fpu acc (int_to_double binary64_fpu (of_nat j)))
      double_1_0 [1..<11] = 0x414BAF8000000000"
    by code_simp
  then show ?thesis
    by (simp only: TestFunction2_loop_result snd_conv)
qed

subsection \<open>The float-pair probe\<close>

lemma sum_of_rounded_products:
  fixes a b p q r eps :: real
  assumes a: "0 \<le> a" and b: "0 \<le> b" and eps: "0 \<le> eps" "eps \<le> 1"
    and p: "\<bar>p - a\<bar> \<le> eps * a"
    and q: "\<bar>q - b\<bar> \<le> eps * b"
    and r: "\<bar>r - (p + q)\<bar> \<le> eps * \<bar>p + q\<bar>"
  shows "\<bar>r - (a + b)\<bar> \<le> (2 * eps + eps * eps) * (a + b)"
proof -
  have products: "\<bar>(p + q) - (a + b)\<bar> \<le> eps * (a + b)"
    using p q by (simp add: distrib_left)
  have "(1 - eps) * (a + b) \<le> p + q"
    using products by (simp add: algebra_simps)
  moreover have "0 \<le> (1 - eps) * (a + b)"
    using a b eps by simp
  ultimately have nonneg: "0 \<le> p + q"
    by linarith
  have upper: "p + q \<le> (a + b) + eps * (a + b)"
    using products by linarith
  have "eps * (p + q) \<le> eps * ((a + b) + eps * (a + b))"
    using upper eps by (intro mult_left_mono) simp_all
  then have "eps * \<bar>p + q\<bar> \<le> eps * (a + b) + eps * eps * (a + b)"
    using nonneg by (simp add: algebra_simps)
  with r products have "\<bar>r - (a + b)\<bar> \<le> eps * (a + b) + eps * eps * (a + b) + eps * (a + b)"
    by linarith
  then show ?thesis
    by (simp add: algebra_simps)
qed

lemma ARM64EC_TestDouble_rounded_operations:
  assumes "is_finite (fmul u x x)"
    and "\<bar>valof (fmul u x x) - valof x * valof x\<bar> \<le> unit_roundoff * \<bar>valof x * valof x\<bar>"
    and "is_finite (fmul u y y)"
    and "\<bar>valof (fmul u y y) - valof y * valof y\<bar> \<le> unit_roundoff * \<bar>valof y * valof y\<bar>"
    and "is_finite (fadd u (fmul u x x) (fmul u y y))"
    and "\<bar>valof (fadd u (fmul u x x) (fmul u y y)) - (valof (fmul u x x) + valof (fmul u y y))\<bar>
          \<le> unit_roundoff * \<bar>valof (fmul u x x) + valof (fmul u y y)\<bar>"
  shows "is_finite (ARM64EC_TestDouble u x y)
    \<and> \<bar>valof (ARM64EC_TestDouble u x y) - (valof x * valof x + valof y * valof y)\<bar>
        \<le> (2 * unit_roundoff + unit_roundoff * unit_roundoff)
           * (valof x * valof x + valof y * valof y)"
proof -
  have "\<bar>valof (fadd u (fmul u x x) (fmul u y y)) - (valof x * valof x + valof y * valof y)\<bar>
      \<le> (2 * unit_roundoff + unit_roundoff * unit_roundoff)
         * (valof x * valof x + valof y * valof y)"
  proof (rule sum_of_rounded_products)
    show "0 \<le> valof x * valof x" and "0 \<le> valof y * valof y"
      by simp_all
    show "0 \<le> unit_roundoff" and "unit_roundoff \<le> 1"
      by (simp_all add: unit_roundoff_def)
    show "\<bar>valof (fmul u x x) - valof x * valof x\<bar> \<le> unit_roundoff * (valof x * valof x)"
      using assms(2) by simp
    show "\<bar>valof (fmul u y y) - valof y * valof y\<bar> \<le> unit_roundoff * (valof y * valof y)"
      using assms(4) by simp
    show "\<bar>valof (fadd u (fmul u x x) (fmul u y y)) - (valof (fmul u x x) + valof (fmul u y y))\<bar>
          \<le> unit_roundoff * \<bar>valof (fmul u x x) + valof (fmul u y y)\<bar>"
      by (rule assms(6))
  qed
  with assms(5) show ?thesis
    by (simp add: ARM64EC_TestDouble_def)
qed

lemma ARM64EC_TestDouble_binary64_in_range:
  assumes x: "is_finite x" and y: "is_finite y"
    and x_range: "valof x = 0 \<or> scale (- 510) \<le> \<bar>valof x\<bar> \<and> \<bar>valof x\<bar> < scale 510"
    and y_range: "valof y = 0 \<or> scale (- 510) \<le> \<bar>valof y\<bar> \<and> \<bar>valof y\<bar> < scale 510"
  shows "is_finite (ARM64EC_TestDouble binary64_fpu x y)"
    and "\<bar>valof (ARM64EC_TestDouble binary64_fpu x y) - (valof x * valof x + valof y * valof y)\<bar>
        \<le> (2 * unit_roundoff + unit_roundoff * unit_roundoff)
           * (valof x * valof x + valof y * valof y)"
proof -
  define p where "p = binary64_mul x x"
  define q where "q = binary64_mul y y"
  note px = binary64_square [OF x x_range, folded p_def]
  note qy = binary64_square [OF y y_range, folded q_def]
  have result: "ARM64EC_TestDouble binary64_fpu x y = binary64_add p q"
    by (simp add: ARM64EC_TestDouble_def binary64_fpu_def p_def q_def)
  have "scale 1022 = 2 * scale 1021"
    using scale_Suc [of 1021] by simp
  moreover have "scale (- 1022) \<le> scale (- 1021)" and "scale 1022 \<le> scale 1023"
    and "0 < scale (- 1021)"
    by (simp_all add: scale_le scale_pos)
  ultimately have "scale (- 1022) \<le> scale (- 1021)" and "scale 1022 = 2 * scale 1021"
    and "scale 1022 \<le> scale 1023" and "0 < scale (- 1021)"
    by (simp_all only:)
  note scales = this
  have in_range: "scale (- 1022) \<le> \<bar>u + v\<bar> \<and> \<bar>u + v\<bar> < scale 1023"
    if "0 \<le> u" and "0 \<le> v" and "scale (- 1021) \<le> u + v"
      and "u < scale 1021" and "v < scale 1021" for u v :: real
    using that scales by (intro conjI; linarith)
  have "valof p + valof q = 0
      \<or> scale (- 1022) \<le> \<bar>valof p + valof q\<bar> \<and> \<bar>valof p + valof q\<bar> < scale 1023"
    using px(3)
  proof
    assume p_zero: "valof p = 0"
    from qy(3) show ?thesis
    proof
      assume "valof q = 0"
      with p_zero show ?thesis
        by simp
    next
      assume "scale (- 1021) \<le> valof q \<and> valof q < scale 1021"
      with p_zero scales in_range [of "valof p" "valof q"] show ?thesis
        by simp
    qed
  next
    assume p_range: "scale (- 1021) \<le> valof p \<and> valof p < scale 1021"
    from qy(3) show ?thesis
    proof
      assume "valof q = 0"
      with p_range scales in_range [of "valof p" "valof q"] show ?thesis
        by simp
    next
      assume "scale (- 1021) \<le> valof q \<and> valof q < scale 1021"
      with p_range scales in_range [of "valof p" "valof q"] show ?thesis
        by simp
    qed
  qed
  note sum = binary64_add_rounds [OF px(1) qy(1) this]
  from sum(1) show "is_finite (ARM64EC_TestDouble binary64_fpu x y)"
    by (simp only: result)
  have "\<bar>valof (binary64_add p q) - (valof x * valof x + valof y * valof y)\<bar>
      \<le> (2 * unit_roundoff + unit_roundoff * unit_roundoff)
         * (valof x * valof x + valof y * valof y)"
  proof (rule sum_of_rounded_products)
    show "0 \<le> valof x * valof x" and "0 \<le> valof y * valof y"
      by simp_all
    show "0 \<le> unit_roundoff" and "unit_roundoff \<le> 1"
      by (simp_all add: unit_roundoff_def)
  qed (rule px(2) qy(2) sum(2))+
  then show "\<bar>valof (ARM64EC_TestDouble binary64_fpu x y) - (valof x * valof x + valof y * valof y)\<bar>
        \<le> (2 * unit_roundoff + unit_roundoff * unit_roundoff)
           * (valof x * valof x + valof y * valof y)"
    by (simp only: result)
qed

text \<open>
  C8: for finite \<open>x\<close> and \<open>y\<close> the float-pair probe returns \<open>x * x + y * y\<close> up to
  rounding when nothing overflows or underflows: the result is then finite and differs
  from \<open>x * x + y * y\<close> by at most the fraction
  \<open>2 * unit_roundoff + unit_roundoff * unit_roundoff\<close> of it. This holds on any
  floating-point unit that delivers the two squares and their sum as finite doubles,
  each within the unit roundoff of the exact result of its operation; and it holds on
  \<open>binary64_fpu\<close>, rounding to nearest, whenever each of \<open>x\<close> and \<open>y\<close> is zero or has
  a magnitude from \<open>2 ^ - 510\<close> up to \<open>2 ^ 510\<close>.
\<close>

theorem ARM64EC_TestDouble_up_to_rounding:
  assumes "is_finite x" and "is_finite y"
  shows
   "(is_finite (fmul u x x)
     \<and> \<bar>valof (fmul u x x) - valof x * valof x\<bar> \<le> unit_roundoff * \<bar>valof x * valof x\<bar>
     \<and> is_finite (fmul u y y)
     \<and> \<bar>valof (fmul u y y) - valof y * valof y\<bar> \<le> unit_roundoff * \<bar>valof y * valof y\<bar>
     \<and> is_finite (fadd u (fmul u x x) (fmul u y y))
     \<and> \<bar>valof (fadd u (fmul u x x) (fmul u y y)) - (valof (fmul u x x) + valof (fmul u y y))\<bar>
         \<le> unit_roundoff * \<bar>valof (fmul u x x) + valof (fmul u y y)\<bar>
     \<longrightarrow>
       is_finite (ARM64EC_TestDouble u x y)
     \<and> \<bar>valof (ARM64EC_TestDouble u x y) - (valof x * valof x + valof y * valof y)\<bar>
         \<le> (2 * unit_roundoff + unit_roundoff * unit_roundoff)
            * (valof x * valof x + valof y * valof y))
    \<and> ((valof x = 0 \<or> 1 / 2 ^ 510 \<le> \<bar>valof x\<bar> \<and> \<bar>valof x\<bar> < 2 ^ 510)
     \<and> (valof y = 0 \<or> 1 / 2 ^ 510 \<le> \<bar>valof y\<bar> \<and> \<bar>valof y\<bar> < 2 ^ 510)
     \<longrightarrow>
       is_finite (ARM64EC_TestDouble binary64_fpu x y)
     \<and> \<bar>valof (ARM64EC_TestDouble binary64_fpu x y) - (valof x * valof x + valof y * valof y)\<bar>
         \<le> (2 * unit_roundoff + unit_roundoff * unit_roundoff)
            * (valof x * valof x + valof y * valof y))"
proof (intro conjI impI)
  assume operations: "is_finite (fmul u x x)
     \<and> \<bar>valof (fmul u x x) - valof x * valof x\<bar> \<le> unit_roundoff * \<bar>valof x * valof x\<bar>
     \<and> is_finite (fmul u y y)
     \<and> \<bar>valof (fmul u y y) - valof y * valof y\<bar> \<le> unit_roundoff * \<bar>valof y * valof y\<bar>
     \<and> is_finite (fadd u (fmul u x x) (fmul u y y))
     \<and> \<bar>valof (fadd u (fmul u x x) (fmul u y y)) - (valof (fmul u x x) + valof (fmul u y y))\<bar>
         \<le> unit_roundoff * \<bar>valof (fmul u x x) + valof (fmul u y y)\<bar>"
  then have "is_finite (ARM64EC_TestDouble u x y)
    \<and> \<bar>valof (ARM64EC_TestDouble u x y) - (valof x * valof x + valof y * valof y)\<bar>
        \<le> (2 * unit_roundoff + unit_roundoff * unit_roundoff)
           * (valof x * valof x + valof y * valof y)"
    by (intro ARM64EC_TestDouble_rounded_operations) simp_all
  then show "is_finite (ARM64EC_TestDouble u x y)"
    and "\<bar>valof (ARM64EC_TestDouble u x y) - (valof x * valof x + valof y * valof y)\<bar>
        \<le> (2 * unit_roundoff + unit_roundoff * unit_roundoff)
           * (valof x * valof x + valof y * valof y)"
    by simp_all
next
  assume ranges: "(valof x = 0 \<or> 1 / 2 ^ 510 \<le> \<bar>valof x\<bar> \<and> \<bar>valof x\<bar> < 2 ^ 510)
     \<and> (valof y = 0 \<or> 1 / 2 ^ 510 \<le> \<bar>valof y\<bar> \<and> \<bar>valof y\<bar> < 2 ^ 510)"
  have scales: "scale (- 510) = 1 / 2 ^ 510" "scale 510 = 2 ^ 510"
    by (simp_all add: scale_def)
  from ranges have x_range: "valof x = 0 \<or> scale (- 510) \<le> \<bar>valof x\<bar> \<and> \<bar>valof x\<bar> < scale 510"
    and y_range: "valof y = 0 \<or> scale (- 510) \<le> \<bar>valof y\<bar> \<and> \<bar>valof y\<bar> < scale 510"
    by (simp_all only: scales)
  from ARM64EC_TestDouble_binary64_in_range [OF assms x_range y_range]
  show "is_finite (ARM64EC_TestDouble binary64_fpu x y)"
    and "\<bar>valof (ARM64EC_TestDouble binary64_fpu x y) - (valof x * valof x + valof y * valof y)\<bar>
        \<le> (2 * unit_roundoff + unit_roundoff * unit_roundoff)
           * (valof x * valof x + valof y * valof y)"
    by simp_all
qed

theorem ARM64EC_TestDouble_up_to_rounding_witness:
  "is_finite 0x3FF0000000000001 \<and> is_finite 0x3FF0000000000000
   \<and> valof 0x3FF0000000000001 = 1 + 1 / 2 ^ 52 \<and> valof 0x3FF0000000000000 = 1
   \<and> fmul binary64_fpu 0x3FF0000000000001 0x3FF0000000000001 = 0x3FF0000000000002
   \<and> valof 0x3FF0000000000002 = 1 + 1 / 2 ^ 51
   \<and> ARM64EC_TestDouble binary64_fpu 0x3FF0000000000001 0x3FF0000000000000 = 0x4000000000000001
   \<and> valof 0x4000000000000001 = 2 + 1 / 2 ^ 51
   \<and> is_finite (ARM64EC_TestDouble binary64_fpu 0x3FF0000000000001 0x3FF0000000000000)
   \<and> \<bar>valof (ARM64EC_TestDouble binary64_fpu 0x3FF0000000000001 0x3FF0000000000000)
       - (valof 0x3FF0000000000001 * valof 0x3FF0000000000001
          + valof 0x3FF0000000000000 * valof 0x3FF0000000000000)\<bar>
      \<le> (2 * unit_roundoff + unit_roundoff * unit_roundoff)
         * (valof 0x3FF0000000000001 * valof 0x3FF0000000000001
            + valof 0x3FF0000000000000 * valof 0x3FF0000000000000)"
proof -
  have x_fields: "significand 0x3FF0000000000001 = 2 ^ 52 + 1
      \<and> exponent 0x3FF0000000000001 = - 52 \<and> \<not> sign_of 0x3FF0000000000001"
    by code_simp
  have y_fields: "significand 0x3FF0000000000000 = 2 ^ 52
      \<and> exponent 0x3FF0000000000000 = - 52 \<and> \<not> sign_of 0x3FF0000000000000"
    by code_simp
  have p_fields: "significand 0x3FF0000000000002 = 2 ^ 52 + 2
      \<and> exponent 0x3FF0000000000002 = - 52 \<and> \<not> sign_of 0x3FF0000000000002"
    by code_simp
  have r_fields: "significand 0x4000000000000001 = 2 ^ 52 + 1
      \<and> exponent 0x4000000000000001 = - 51 \<and> \<not> sign_of 0x4000000000000001"
    by code_simp
  have x: "valof 0x3FF0000000000001 = 1 + 1 / 2 ^ 52"
    using x_fields by (simp add: valof_def scale_def field_simps)
  have y: "valof 0x3FF0000000000000 = 1"
    using y_fields by (simp add: valof_def scale_def field_simps)
  have p: "valof 0x3FF0000000000002 = 1 + 1 / 2 ^ 51"
    using p_fields by (simp add: valof_def scale_def field_simps)
  have r: "valof 0x4000000000000001 = 2 + 1 / 2 ^ 51"
    using r_fields by (simp add: valof_def scale_def field_simps)
  have xx: "fmul binary64_fpu 0x3FF0000000000001 0x3FF0000000000001 = 0x3FF0000000000002"
    by code_simp
  have yy: "fmul binary64_fpu 0x3FF0000000000000 0x3FF0000000000000 = 0x3FF0000000000000"
    by code_simp
  have sum: "fadd binary64_fpu 0x3FF0000000000002 0x3FF0000000000000 = 0x4000000000000001"
    by code_simp
  have finite: "is_finite 0x3FF0000000000001" "is_finite 0x3FF0000000000000"
    "is_finite 0x3FF0000000000002" "is_finite 0x4000000000000001"
    by code_simp+
  have result: "ARM64EC_TestDouble binary64_fpu 0x3FF0000000000001 0x3FF0000000000000
      = 0x4000000000000001"
    by (simp only: ARM64EC_TestDouble_def xx yy sum)
  have operations: "is_finite (fmul binary64_fpu 0x3FF0000000000001 0x3FF0000000000001)
     \<and> \<bar>valof (fmul binary64_fpu 0x3FF0000000000001 0x3FF0000000000001)
          - valof 0x3FF0000000000001 * valof 0x3FF0000000000001\<bar>
        \<le> unit_roundoff * \<bar>valof 0x3FF0000000000001 * valof 0x3FF0000000000001\<bar>
     \<and> is_finite (fmul binary64_fpu 0x3FF0000000000000 0x3FF0000000000000)
     \<and> \<bar>valof (fmul binary64_fpu 0x3FF0000000000000 0x3FF0000000000000)
          - valof 0x3FF0000000000000 * valof 0x3FF0000000000000\<bar>
        \<le> unit_roundoff * \<bar>valof 0x3FF0000000000000 * valof 0x3FF0000000000000\<bar>
     \<and> is_finite (fadd binary64_fpu (fmul binary64_fpu 0x3FF0000000000001 0x3FF0000000000001)
          (fmul binary64_fpu 0x3FF0000000000000 0x3FF0000000000000))
     \<and> \<bar>valof (fadd binary64_fpu (fmul binary64_fpu 0x3FF0000000000001 0x3FF0000000000001)
            (fmul binary64_fpu 0x3FF0000000000000 0x3FF0000000000000))
          - (valof (fmul binary64_fpu 0x3FF0000000000001 0x3FF0000000000001)
             + valof (fmul binary64_fpu 0x3FF0000000000000 0x3FF0000000000000))\<bar>
        \<le> unit_roundoff * \<bar>valof (fmul binary64_fpu 0x3FF0000000000001 0x3FF0000000000001)
             + valof (fmul binary64_fpu 0x3FF0000000000000 0x3FF0000000000000)\<bar>"
    unfolding xx yy sum x y p r unit_roundoff_def using finite by (simp add: field_simps)
  have ranges: "(valof 0x3FF0000000000001 = 0
        \<or> 1 / 2 ^ 510 \<le> \<bar>valof 0x3FF0000000000001\<bar> \<and> \<bar>valof 0x3FF0000000000001\<bar> < 2 ^ 510)
     \<and> (valof 0x3FF0000000000000 = 0
        \<or> 1 / 2 ^ 510 \<le> \<bar>valof 0x3FF0000000000000\<bar> \<and> \<bar>valof 0x3FF0000000000000\<bar> < 2 ^ 510)"
    unfolding x y by (simp add: field_simps)
  from ARM64EC_TestDouble_up_to_rounding [OF finite(1,2), of binary64_fpu] operations ranges
  have "is_finite (ARM64EC_TestDouble binary64_fpu 0x3FF0000000000001 0x3FF0000000000000)
   \<and> \<bar>valof (ARM64EC_TestDouble binary64_fpu 0x3FF0000000000001 0x3FF0000000000000)
       - (valof 0x3FF0000000000001 * valof 0x3FF0000000000001
          + valof 0x3FF0000000000000 * valof 0x3FF0000000000000)\<bar>
      \<le> (2 * unit_roundoff + unit_roundoff * unit_roundoff)
         * (valof 0x3FF0000000000001 * valof 0x3FF0000000000001
            + valof 0x3FF0000000000000 * valof 0x3FF0000000000000)"
    by blast
  with finite x y p r xx result show ?thesis
    by (simp only: simp_thms)
qed

text \<open>
  Without such a condition the probe does not return \<open>x * x + y * y\<close> up to rounding
  for all finite inputs: for \<open>x\<close> the double nearest to \<open>10 ^ 200\<close> and \<open>y = 1\<close> the
  square of \<open>x\<close> overflows and the probe returns the positive infinity.
\<close>

theorem ARM64EC_TestDouble_overflow:
  "is_finite 0x6974E718D7D7625A \<and> is_finite 0x3FF0000000000000
   \<and> ARM64EC_TestDouble binary64_fpu 0x6974E718D7D7625A 0x3FF0000000000000 = positive_infinity
   \<and> \<not> is_finite (ARM64EC_TestDouble binary64_fpu 0x6974E718D7D7625A 0x3FF0000000000000)
   \<and> \<not> (is_finite (ARM64EC_TestDouble binary64_fpu 0x6974E718D7D7625A 0x3FF0000000000000)
        \<and> \<bar>valof (ARM64EC_TestDouble binary64_fpu 0x6974E718D7D7625A 0x3FF0000000000000)
            - (valof 0x6974E718D7D7625A * valof 0x6974E718D7D7625A
               + valof 0x3FF0000000000000 * valof 0x3FF0000000000000)\<bar>
          \<le> (2 * unit_roundoff + unit_roundoff * unit_roundoff)
             * (valof 0x6974E718D7D7625A * valof 0x6974E718D7D7625A
                + valof 0x3FF0000000000000 * valof 0x3FF0000000000000))"
proof -
  have result: "ARM64EC_TestDouble binary64_fpu 0x6974E718D7D7625A 0x3FF0000000000000
      = positive_infinity"
    by code_simp
  have finite: "is_finite 0x6974E718D7D7625A \<and> is_finite 0x3FF0000000000000
      \<and> \<not> is_finite positive_infinity"
    by code_simp
  from result finite show ?thesis
    by simp
qed

text \<open>
  Underflow is excluded as well: the square of \<open>2 ^ - 600\<close> is rounded to zero, and
  zero is not within that fraction of \<open>x * x + y * y\<close>.
\<close>

lemma ARM64EC_TestDouble_underflow:
  "is_finite 0x1A70000000000000 \<and> is_finite 0
   \<and> valof 0x1A70000000000000 = 1 / 2 ^ 600 \<and> valof 0 = 0
   \<and> ARM64EC_TestDouble binary64_fpu 0x1A70000000000000 0 = 0
   \<and> \<not> \<bar>valof (ARM64EC_TestDouble binary64_fpu 0x1A70000000000000 0)
          - (valof 0x1A70000000000000 * valof 0x1A70000000000000 + valof 0 * valof 0)\<bar>
        \<le> (2 * unit_roundoff + unit_roundoff * unit_roundoff)
           * (valof 0x1A70000000000000 * valof 0x1A70000000000000 + valof 0 * valof 0)"
proof -
  have x_fields: "significand 0x1A70000000000000 = 2 ^ 52
      \<and> exponent 0x1A70000000000000 = - 652 \<and> \<not> sign_of 0x1A70000000000000"
    by code_simp
  have "(2::real) ^ 652 = 2 ^ 52 * 2 ^ 600"
    by (simp only: power_add [symmetric]) simp
  then have x: "valof 0x1A70000000000000 = 1 / 2 ^ 600"
    using x_fields by (simp add: valof_def scale_def)
  have result: "ARM64EC_TestDouble binary64_fpu 0x1A70000000000000 0 = 0"
    by code_simp
  have finite: "is_finite 0x1A70000000000000"
    by code_simp
  have "(2 * unit_roundoff + unit_roundoff * unit_roundoff) < 1"
    by (simp add: unit_roundoff_def)
  then have "(2 * unit_roundoff + unit_roundoff * unit_roundoff) * (1 / 2 ^ 600 * (1 / 2 ^ 600))
      < 1 * (1 / 2 ^ 600 * (1 / 2 ^ 600))"
    by (intro mult_strict_right_mono) simp_all
  then have "\<not> \<bar>0 - (1 / 2 ^ 600 * (1 / 2 ^ 600) + 0 * 0)\<bar>
        \<le> (2 * unit_roundoff + unit_roundoff * unit_roundoff)
           * (1 / 2 ^ 600 * (1 / 2 ^ 600) + (0::real) * 0)"
    by simp
  with x result finite signed_zero(2,4) show ?thesis
    by (simp only: simp_thms)
qed

end
